theory Spec2Isabelle
  imports Main
begin

section \<open>JavaScript values, numbers and property keys\<close>

text \<open>
  The client of \<^verbatim>\<open>wsrpc.es6.js\<close> keeps its whole state in the fields of \<^verbatim>\<open>self\<close>
  and changes it from the public operations and from the four transport handlers.
  The embedding follows the file function by function. Values that cross the
  wire or are thrown are \<open>jsval\<close>: the JSON values with integer-valued numbers,
  \<^verbatim>\<open>undefined\<close>, and \<open>JErr m\<close> for an \<^verbatim>\<open>Error\<close> object with message \<open>m\<close>.
  An exception is the value it throws, so a computation that may throw returns
  \<open>jsval + 'a\<close> with \<open>Inl\<close> the thrown value.
\<close>

type_synonym key = string

datatype jsval =
    JUndefined
  | JNull
  | JBool bool
  | JNum int
  | JStr string
  | JErr string
  | JArr "jsval list"
  | JObj "(key \<times> jsval) list"

text \<open>
  A Number is an IEEE double. On integers that is exact up to \<open>2 ^ 53\<close>; above,
  the sum is rounded to 53 significant bits, ties to even (overflow to Infinity,
  beyond \<open>2 ^ 1024\<close>, is left out).
\<close>

function bitlen :: "nat \<Rightarrow> nat" where
  "bitlen n = (if n = 0 then 0 else Suc (bitlen (n div 2)))"
  by pat_completeness auto
termination
  by (relation "measure (\<lambda>n. n)") auto

declare bitlen.simps [simp del]

definition num_round :: "int \<Rightarrow> int" where
  "num_round x =
     (if \<bar>x\<bar> \<le> 2 ^ 53 then x
      else let u = 2 ^ (bitlen (nat \<bar>x\<bar>) - 53);
               q = \<bar>x\<bar> div u;
               r = \<bar>x\<bar> mod u;
               m = (if 2 * r < u \<or> (2 * r = u \<and> even q) then q else q + 1)
           in sgn x * (m * u))"

definition num_add :: "int \<Rightarrow> int \<Rightarrow> int" where
  "num_add a b = num_round (a + b)"

text \<open>
  Property keys are strings. \<open>to_key\<close> is the conversion JavaScript applies to
  the value between the brackets of \<^verbatim>\<open>obj[v]\<close> and to the argument of
  \<^verbatim>\<open>hasOwnProperty\<close>: a number gives its decimal digits (integers below \<open>10 ^ 21\<close>),
  an array joins its elements with commas (\<^verbatim>\<open>null\<close> and \<^verbatim>\<open>undefined\<close> give the
  empty string), a plain object gives \<^verbatim>\<open>[object Object]\<close>, and an object with an
  own member \<^verbatim>\<open>toString\<close>, which JSON can only make a non-function, raises TypeError.
\<close>

definition digit :: "nat \<Rightarrow> char" where
  "digit n = ''0123456789'' ! n"

function dec :: "nat \<Rightarrow> string" where
  "dec n = (if n < 10 then [digit n] else dec (n div 10) @ [digit (n mod 10)])"
  by pat_completeness auto
termination
  by (relation "measure (\<lambda>n. n)") auto

declare dec.simps [simp del]

definition num_key :: "int \<Rightarrow> key" where
  "num_key n = (if n < 0 then CHR ''-'' # dec (nat (- n)) else dec (nat n))"

fun to_key :: "jsval \<Rightarrow> jsval + key"
  and join_keys :: "jsval list \<Rightarrow> jsval + key"
where
  "to_key JUndefined = Inr ''undefined''"
| "to_key JNull = Inr ''null''"
| "to_key (JBool b) = Inr (if b then ''true'' else ''false'')"
| "to_key (JNum n) = Inr (num_key n)"
| "to_key (JStr s) = Inr s"
| "to_key (JErr m) = Inr (if m = [] then ''Error'' else ''Error: '' @ m)"
| "to_key (JArr xs) = join_keys xs"
| "to_key (JObj fs) =
     (if ''toString'' \<in> fst ` set fs
      then Inl (JErr ''Cannot convert object to primitive value'')
      else Inr ''[object Object]'')"
| "join_keys [] = Inr []"
| "join_keys (x # xs) =
     (case (if x = JNull \<or> x = JUndefined then Inr [] else to_key x) of
        Inl e \<Rightarrow> Inl e
      | Inr a \<Rightarrow>
          (if xs = [] then Inr a
           else case join_keys xs of
                  Inl e \<Rightarrow> Inl e
                | Inr b \<Rightarrow> Inr (a @ '','' @ b)))"

text \<open>
  \<^verbatim>\<open>JSON.stringify\<close> is taken as given; what the model keeps of it is which
  members reach the text: a member whose value is \<^verbatim>\<open>undefined\<close> is dropped, an
  \<^verbatim>\<open>undefined\<close> array element becomes \<^verbatim>\<open>null\<close>, and an \<^verbatim>\<open>Error\<close> object, whose
  properties are not enumerable, becomes the empty object.
\<close>

fun JSON_stringify :: "jsval \<Rightarrow> jsval"
  and stringify_members :: "(key \<times> jsval) list \<Rightarrow> (key \<times> jsval) list"
  and stringify_elems :: "jsval list \<Rightarrow> jsval list"
where
  "JSON_stringify (JErr m) = JObj []"
| "JSON_stringify (JArr xs) = JArr (stringify_elems xs)"
| "JSON_stringify (JObj fs) = JObj (stringify_members fs)"
| "JSON_stringify JUndefined = JUndefined"
| "JSON_stringify JNull = JNull"
| "JSON_stringify (JBool b) = JBool b"
| "JSON_stringify (JNum n) = JNum n"
| "JSON_stringify (JStr s) = JStr s"
| "stringify_members [] = []"
| "stringify_members ((k, v) # fs) =
     (if v = JUndefined then stringify_members fs
      else (k, JSON_stringify v) # stringify_members fs)"
| "stringify_elems [] = []"
| "stringify_elems (x # xs) =
     (if x = JUndefined then JNull else JSON_stringify x) # stringify_elems xs"

section \<open>Objects used as dictionaries\<close>

text \<open>
  \<^verbatim>\<open>self.store\<close>, \<^verbatim>\<open>self.routes\<close>, \<^verbatim>\<open>self.asyncRoutes\<close> and each
  \<^verbatim>\<open>self.eventStore[name]\<close> are plain objects. An object is the list of its own
  properties in the order \<^verbatim>\<open>for (k in obj)\<close> visits them: array indices (the
  decimal strings of the integers below \<open>2 ^ 32 - 1\<close>) ascending, then the other
  keys in insertion order.
\<close>

type_synonym 'a obj = "(key \<times> 'a) list"

definition digit_val :: "char \<Rightarrow> nat option" where
  "digit_val c = (let i = of_char c :: nat in if 48 \<le> i \<and> i \<le> 57 then Some (i - 48) else None)"

fun parse_nat :: "nat \<Rightarrow> string \<Rightarrow> nat option" where
  "parse_nat acc [] = Some acc"
| "parse_nat acc (c # cs) =
     (case digit_val c of None \<Rightarrow> None | Some d \<Rightarrow> parse_nat (10 * acc + d) cs)"

definition array_index :: "key \<Rightarrow> nat option" where
  "array_index k =
     (if k = [] then None
      else case parse_nat 0 k of
             None \<Rightarrow> None
           | Some n \<Rightarrow> if dec n = k \<and> n < 2 ^ 32 - 1 then Some n else None)"

definition hasOwnProperty :: "'a obj \<Rightarrow> key \<Rightarrow> bool" where
  "hasOwnProperty ob k = (map_of ob k \<noteq> None)"

definition obj_get :: "'a obj \<Rightarrow> key \<Rightarrow> 'a option" where
  "obj_get ob k = map_of ob k"

fun obj_insert :: "key \<Rightarrow> 'a \<Rightarrow> 'a obj \<Rightarrow> 'a obj" where
  "obj_insert k v [] = [(k, v)]"
| "obj_insert k v ((k', v') # ob) =
     (if k = k' then (k, v) # ob
      else case array_index k of
             None \<Rightarrow> (k', v') # obj_insert k v ob
           | Some n \<Rightarrow>
               (case array_index k' of
                  None \<Rightarrow> (k, v) # (k', v') # ob
                | Some n' \<Rightarrow>
                    if n < n' then (k, v) # (k', v') # ob
                    else (k', v') # obj_insert k v ob))"

definition obj_set :: "key \<Rightarrow> 'a \<Rightarrow> 'a obj \<Rightarrow> 'a obj" where
  \<comment> \<open>\<^verbatim>\<open>obj[k] = v\<close>; assigning to \<^verbatim>\<open>__proto__\<close> creates no own property.\<close>
  "obj_set k v ob = (if k = ''__proto__'' then ob else obj_insert k v ob)"

definition obj_delete :: "key \<Rightarrow> 'a obj \<Rightarrow> 'a obj" where
  "obj_delete k ob = filter (\<lambda>p. fst p \<noteq> k) ob"

definition delete_result :: "key \<Rightarrow> 'a obj \<Rightarrow> bool" where
  \<comment> \<open>The value of the expression \<^verbatim>\<open>delete obj[k]\<close>: \<^verbatim>\<open>true\<close> whether or not the
      property existed; it is \<^verbatim>\<open>false\<close> only for a non-configurable property, and
      the properties of these objects are all created by assignment.\<close>
  "delete_result k ob = True"

text \<open>
  The messages of the TypeErrors that the engine raises are written as V8 words
  them; one of them goes on the wire when \<^verbatim>\<open>ws.onmessage\<close> catches it.
\<close>

definition object_prototype_keys :: "key list" where
  \<comment> \<open>What a plain object inherits: \<^verbatim>\<open>obj[k]\<close> is not \<^verbatim>\<open>undefined\<close> for these keys
      even when \<open>k\<close> is no own property.\<close>
  "object_prototype_keys =
     [''constructor'', ''hasOwnProperty'', ''isPrototypeOf'', ''propertyIsEnumerable'',
      ''toLocaleString'', ''toString'', ''valueOf'', ''__proto__'',
      ''__defineGetter__'', ''__defineSetter__'', ''__lookupGetter__'', ''__lookupSetter__'']"

section \<open>Deferred\<close>

text \<open>
  A \<^verbatim>\<open>Deferred\<close> holds the flag \<^verbatim>\<open>done\<close> and its promise. \<^verbatim>\<open>wrapper\<close> guards both
  \<^verbatim>\<open>resolve\<close> and \<^verbatim>\<open>reject\<close>: it throws when \<^verbatim>\<open>done\<close> is set, and otherwise sets it
  and settles the promise. \<open>then_send\<close> is the reaction \<^verbatim>\<open>handleCall\<close> attaches:
  the connection number it captured and the id of the inbound call.
\<close>

datatype outcome = Resolved jsval | Rejected jsval

record deferred =
  done' :: bool
  promise :: "outcome option"
  then_send :: "(int \<times> jsval) option"

definition Deferred :: deferred where
  "Deferred = \<lparr>done' = False, promise = None, then_send = None\<rparr>"

definition wrapper :: "outcome \<Rightarrow> deferred \<Rightarrow> jsval + deferred" where
  "wrapper oc d =
     (if done' d then Inl (JErr ''Promise already done'')
      else Inr (d\<lparr>done' := True, promise := Some oc\<rparr>))"

definition resolve :: "jsval \<Rightarrow> deferred \<Rightarrow> jsval + deferred" where
  "resolve v d = wrapper (Resolved v) d"

definition reject :: "jsval \<Rightarrow> deferred \<Rightarrow> jsval + deferred" where
  "reject r d = wrapper (Rejected r) d"

definition isPending :: "deferred \<Rightarrow> bool" where
  "isPending d = (\<not> done' d)"

section \<open>The transport\<close>

text \<open>
  The WebSocket is the browser's. The model keeps what the client reads and
  calls: \<^verbatim>\<open>readyState\<close> (0 to 3) and \<^verbatim>\<open>send\<close>, which raises InvalidStateError
  while the socket is connecting, transmits when it is open, and drops the text
  silently once the socket is closing or closed; \<^verbatim>\<open>close\<close> moves a connecting
  or open socket to closing. \<open>sent\<close> is the list of texts transmitted, oldest
  first, each held as the value \<^verbatim>\<open>JSON.stringify\<close> was given.
\<close>

record websocket =
  ws_readyState :: nat
  sent :: "jsval list"

definition WebSocket :: websocket where
  "WebSocket = \<lparr>ws_readyState = 0, sent = []\<rparr>"

definition ws_send :: "jsval \<Rightarrow> websocket \<Rightarrow> jsval + websocket" where
  "ws_send text w =
     (if ws_readyState w = 0 then Inl (JErr ''InvalidStateError'')
      else if ws_readyState w = 1 then Inr (w\<lparr>sent := sent w @ [text]\<rparr>)
      else Inr w)"

definition ws_close :: "websocket \<Rightarrow> websocket" where
  "ws_close w = (if ws_readyState w < 2 then w\<lparr>ws_readyState := 2\<rparr> else w)"

definition readyState :: "nat \<Rightarrow> jsval" where
  "readyState c =
     (if c = 0 then JStr ''CONNECTING''
      else if c = 1 then JStr ''OPEN''
      else if c = 2 then JStr ''CLOSING''
      else if c = 3 then JStr ''CLOSED''
      else JUndefined)"

section \<open>The state of a client\<close>

text \<open>
  A listener is user code: the model keeps whether it returns or throws, and
  what it throws. A route callback is kept by what it does under each of the
  ways \<^verbatim>\<open>handleCall\<close> can come to call it: with the mock as \<^verbatim>\<open>this\<close> it returns
  a value or throws; with the Deferred as \<^verbatim>\<open>this\<close> it may settle the Deferred
  before it returns, and may throw; and when it is the route named
  \<^verbatim>\<open>hasOwnProperty\<close>, the test \<^verbatim>\<open>self.routes.hasOwnProperty(data.method)\<close> calls
  it, with the route table as \<^verbatim>\<open>this\<close> and the method as argument, and it returns a
  value or throws.
\<close>

type_synonym listener = "jsval \<Rightarrow> jsval option"

datatype handler =
  Handler (apply_mock: "jsval \<Rightarrow> jsval + jsval")
          (apply_deferred: "jsval \<Rightarrow> outcome option \<times> jsval option")
          (apply_table: "jsval \<Rightarrow> jsval + jsval")

datatype evname = onconnect | onerror | onclose | onchange

record callObj =
  id' :: int
  method' :: jsval
  params :: jsval

text \<open>
  Deferreds and sockets are objects: \<open>heap\<close> and \<open>sockets\<close> hold them by
  address, and the store, the one-time event lists and \<^verbatim>\<open>self.socket\<close> hold
  addresses. \<open>timers\<close> counts the reconnect timeouts that are set and have not
  fired; \<open>jobs\<close> are the promise reactions of \<^verbatim>\<open>handleCall\<close> that are queued
  and run when the current handler has returned.
\<close>

record wsrpc =
  self_id :: int
  eventId :: int
  socketStarted :: bool
  eventStore :: "evname \<Rightarrow> listener obj"
  connectionNumber :: int
  oneTimeEventStore :: "evname \<Rightarrow> nat list"
  callQueue :: "callObj list"
  socket :: "nat option"
  socketEventsListeners :: "listener list"
  asyncRoutes :: "bool obj"
  routes :: "handler obj"
  store :: "nat obj"
  heap :: "nat \<Rightarrow> deferred"
  heap_size :: nat
  sockets :: "nat \<Rightarrow> websocket"
  sockets_size :: nat
  timers :: nat
  jobs :: "(int \<times> jsval \<times> outcome) list"

type_synonym 'a result = "(jsval + 'a) \<times> wsrpc"

definition new_Deferred :: "(int \<times> jsval) option \<Rightarrow> wsrpc \<Rightarrow> nat \<times> wsrpc" where
  "new_Deferred r s =
     (heap_size s,
      s\<lparr>heap := (heap s)(heap_size s := Deferred\<lparr>then_send := r\<rparr>),
        heap_size := Suc (heap_size s)\<rparr>)"

definition settle :: "outcome \<Rightarrow> nat \<Rightarrow> wsrpc \<Rightarrow> unit result" where
  \<comment> \<open>\<^verbatim>\<open>deferred.resolve(v)\<close> or \<^verbatim>\<open>deferred.reject(r)\<close> on the Deferred at address \<open>a\<close>.\<close>
  "settle oc a s =
     (case wrapper oc (heap s a) of
        Inl e \<Rightarrow> (Inl e, s)
      | Inr d \<Rightarrow>
          (Inr (),
           s\<lparr>heap := (heap s)(a := d),
             jobs := jobs s @ (case then_send d of
                                 None \<Rightarrow> []
                               | Some (cn, i) \<Rightarrow> [(cn, i, oc)])\<rparr>))"

definition socket_send :: "jsval \<Rightarrow> wsrpc \<Rightarrow> unit result" where
  \<comment> \<open>\<^verbatim>\<open>self.socket.send(text)\<close>\<close>
  "socket_send text s =
     (case socket s of
        None \<Rightarrow> (Inl (JErr ''Cannot read properties of undefined (reading 'send')''), s)
      | Some w \<Rightarrow>
          (case ws_send text (sockets s w) of
             Inl e \<Rightarrow> (Inl e, s)
           | Inr w' \<Rightarrow> (Inr (), s\<lparr>sockets := (sockets s)(w := w')\<rparr>)))"

definition stateCode :: "wsrpc \<Rightarrow> nat" where
  "stateCode s =
     (if socketStarted s
      then (case socket s of Some w \<Rightarrow> ws_readyState (sockets s w) | None \<Rightarrow> 3)
      else 3)"

definition state :: "wsrpc \<Rightarrow> jsval" where
  "state s = readyState (stateCode s)"

text \<open>
  The reactions \<^verbatim>\<open>handleCall\<close> attaches with \<^verbatim>\<open>then\<close>: each compares the
  connection number it captured with the current one and, when they agree,
  sends the reply; an exception of \<^verbatim>\<open>send\<close> inside a reaction rejects the
  derived promise and reaches nobody.
\<close>

definition reply :: "jsval \<Rightarrow> outcome \<Rightarrow> jsval" where
  "reply i oc =
     (case oc of
        Resolved v \<Rightarrow> JSON_stringify (JObj [(''id'', i), (''result'', v)])
      | Rejected e \<Rightarrow> JSON_stringify (JObj [(''id'', i), (''error'', e)]))"

fun run_reactions :: "(int \<times> jsval \<times> outcome) list \<Rightarrow> wsrpc \<Rightarrow> wsrpc" where
  "run_reactions [] s = s"
| "run_reactions ((cn, i, oc) # js) s =
     (if cn \<noteq> connectionNumber s then run_reactions js s
      else run_reactions js (snd (socket_send (reply i oc) s)))"

definition run_jobs :: "wsrpc \<Rightarrow> wsrpc" where
  "run_jobs s = run_reactions (jobs s) (s\<lparr>jobs := []\<rparr>)"

section \<open>makeCall\<close>

definition callObj_json :: "callObj \<Rightarrow> jsval" where
  "callObj_json c =
     JSON_stringify (JObj [(''id'', JNum (id' c)), (''method'', method' c), (''params'', params c)])"

definition socket_is :: "jsval \<Rightarrow> jsval" where
  \<comment> \<open>the template \<^verbatim>\<open>`Socket is: ${state}`\<close>\<close>
  "socket_is st = JStr (''Socket is: '' @ (case st of JStr n \<Rightarrow> n | _ \<Rightarrow> ''undefined''))"

definition makeCall :: "jsval \<Rightarrow> jsval \<Rightarrow> bool \<Rightarrow> wsrpc \<Rightarrow> nat result" where
  \<comment> \<open>\<open>noWait\<close> is the truth value of \<^verbatim>\<open>params && params['noWait']\<close>; the result is the
      address of the Deferred whose promise is returned.\<close>
  "makeCall func args noWait s =
     (let s1 = s\<lparr>self_id := num_add (self_id s) 2\<rparr>;
          (deferred, s2) = new_Deferred None s1;
          c = \<lparr>id' = self_id s2, method' = func, params = args\<rparr>;
          st = state s2
      in if st = JStr ''OPEN'' then
           (let s3 = s2\<lparr>store := obj_set (num_key (self_id s2)) deferred (store s2)\<rparr>
            in case socket_send (callObj_json c) s3 of
                 (Inl e, s4) \<Rightarrow> (Inl e, s4)
               | (Inr u, s4) \<Rightarrow> (Inr deferred, s4))
         else if st = JStr ''CONNECTING'' then
           (Inr deferred,
            s2\<lparr>store := obj_set (num_key (self_id s2)) deferred (store s2),
               callQueue := callQueue s2 @ [c]\<rparr>)
         else if noWait then
           (case settle (Rejected (socket_is st)) deferred s2 of
              (Inl e, s3) \<Rightarrow> (Inl e, s3)
            | (Inr u, s3) \<Rightarrow> (Inr deferred, s3))
         else
           (Inr deferred,
            s2\<lparr>store := obj_set (num_key (self_id s2)) deferred (store s2),
               callQueue := callQueue s2 @ [c]\<rparr>))"

section \<open>createSocket: the handlers of one transport\<close>

text \<open>
  \<^verbatim>\<open>log\<close> and \<^verbatim>\<open>trace\<close> return at once, \<^verbatim>\<open>WSRPC.DEBUG\<close> and \<^verbatim>\<open>WSRPC.TRACE\<close> being
  \<^verbatim>\<open>false\<close>, and \<^verbatim>\<open>console\<close> output is no state of the client: both are left out.
\<close>

fun reject_queued :: "callObj list \<Rightarrow> wsrpc \<Rightarrow> wsrpc" where
  \<comment> \<open>the \<^verbatim>\<open>while\<close> loop of \<^verbatim>\<open>rejectQueue\<close>, on the queue that is left\<close>
  "reject_queued [] s = s"
| "reject_queued (c # cs) s =
     (let deferred = obj_get (store s) (num_key (id' c));
          s1 = s\<lparr>callQueue := cs, store := obj_delete (num_key (id' c)) (store s)\<rparr>
      in reject_queued cs
           (case deferred of
              None \<Rightarrow> s1
            | Some a \<Rightarrow>
                if isPending (heap s1 a)
                then snd (settle (Rejected (JStr ''WebSocket error occurred'')) a s1)
                else s1))"

fun reject_stored :: "nat obj \<Rightarrow> wsrpc \<Rightarrow> wsrpc" where
  \<comment> \<open>the \<^verbatim>\<open>for (key in self.store)\<close> loop of \<^verbatim>\<open>rejectQueue\<close>\<close>
  "reject_stored [] s = s"
| "reject_stored ((k, a) # ob) s =
     reject_stored ob
       (if isPending (heap s a)
        then snd (settle (Rejected (JStr ''WebSocket error occurred'')) a s)
        else s)"

definition rejectQueue :: "wsrpc \<Rightarrow> wsrpc" where
  "rejectQueue s =
     (let s1 = s\<lparr>connectionNumber := num_add (connectionNumber s) 1\<rparr>;
          s2 = reject_queued (callQueue s1) s1
      in reject_stored (store s2) s2)"

fun resolve_oneTime :: "nat list \<Rightarrow> evname \<Rightarrow> wsrpc \<Rightarrow> wsrpc" where
  \<comment> \<open>the \<^verbatim>\<open>while\<close> loop of \<^verbatim>\<open>callEvents\<close>\<close>
  "resolve_oneTime [] ev s = s"
| "resolve_oneTime (a # as) ev s =
     (let s1 = s\<lparr>oneTimeEventStore := (oneTimeEventStore s)(ev := as)\<rparr>
      in resolve_oneTime as ev
           (if isPending (heap s1 a) then snd (settle (Resolved JUndefined) a s1) else s1))"

definition tryCallEvent :: "listener \<Rightarrow> jsval \<Rightarrow> jsval + unit" where
  \<comment> \<open>The \<^verbatim>\<open>catch\<close> block calls \<^verbatim>\<open>e.hasOwnProperty('stack')\<close>, which itself throws
      when the listener threw \<^verbatim>\<open>null\<close> or \<^verbatim>\<open>undefined\<close>, or an object whose own
      member \<^verbatim>\<open>hasOwnProperty\<close> hides the inherited function.\<close>
  "tryCallEvent func event =
     (case func event of
        None \<Rightarrow> Inr ()
      | Some e \<Rightarrow>
          (case e of
             JNull \<Rightarrow> Inl (JErr ''Cannot read properties of null (reading 'hasOwnProperty')'')
           | JUndefined \<Rightarrow>
               Inl (JErr ''Cannot read properties of undefined (reading 'hasOwnProperty')'')
           | JObj fs \<Rightarrow>
               if hasOwnProperty fs ''hasOwnProperty''
               then Inl (JErr ''e.hasOwnProperty is not a function'')
               else Inr ()
           | _ \<Rightarrow> Inr ()))"

fun call_listeners :: "listener obj \<Rightarrow> jsval \<Rightarrow> jsval + unit" where
  "call_listeners [] event = Inr ()"
| "call_listeners ((i, cur) # ob) event =
     (case tryCallEvent cur event of
        Inl e \<Rightarrow> Inl e
      | Inr u \<Rightarrow> call_listeners ob event)"

definition callEvents :: "evname \<Rightarrow> jsval \<Rightarrow> wsrpc \<Rightarrow> unit result" where
  "callEvents evName event s =
     (let s1 = resolve_oneTime (oneTimeEventStore s evName) evName s
      in (call_listeners (eventStore s1 evName) event, s1))"

definition reconnect :: "wsrpc \<Rightarrow> wsrpc" where
  \<comment> \<open>\<^verbatim>\<open>setTimeout\<close>: one more timeout is set.\<close>
  "reconnect s = s\<lparr>timers := Suc (timers s)\<rparr>"

fun close_stored :: "nat obj \<Rightarrow> wsrpc \<Rightarrow> unit result" where
  \<comment> \<open>The \<^verbatim>\<open>for (serial in self.store)\<close> loop of \<^verbatim>\<open>ws.onclose\<close>. Every Deferred has
      the own property \<^verbatim>\<open>reject\<close>, so the test before the call always holds.\<close>
  "close_stored [] s = (Inr (), s)"
| "close_stored ((serial, a) # ob) s =
     (case settle (Rejected (JStr ''Connection closed'')) a s of
        (Inl e, s1) \<Rightarrow> (Inl e, s1)
      | (Inr u, s1) \<Rightarrow> close_stored ob s1)"

definition ws_onclose :: "jsval \<Rightarrow> wsrpc \<Rightarrow> unit result" where
  "ws_onclose err s =
     (case close_stored (store s) s of
        (Inl e, s1) \<Rightarrow> (Inl e, s1)
      | (Inr u, s1) \<Rightarrow>
          (case callEvents onclose err (rejectQueue s1) of
             (Inl e, s2) \<Rightarrow> (Inl e, s2)
           | (Inr u, s2) \<Rightarrow>
               (case callEvents onchange err s2 of
                  (Inl e, s3) \<Rightarrow> (Inl e, s3)
                | (Inr u, s3) \<Rightarrow> (Inr (), reconnect s3))))"

definition ws_onerror :: "jsval \<Rightarrow> wsrpc \<Rightarrow> unit result" where
  "ws_onerror err s =
     (case callEvents onerror err (rejectQueue s) of
        (Inl e, s1) \<Rightarrow> (Inl e, s1)
      | (Inr u, s1) \<Rightarrow> callEvents onchange err s1)"

fun send_queued :: "callObj list \<Rightarrow> wsrpc \<Rightarrow> unit result" where
  \<comment> \<open>the \<^verbatim>\<open>while\<close> loop of \<^verbatim>\<open>ws.onopen\<close>: \<^verbatim>\<open>shift\<close>, then \<^verbatim>\<open>send\<close>\<close>
  "send_queued [] s = (Inr (), s)"
| "send_queued (c # cs) s =
     (case socket_send (callObj_json c) (s\<lparr>callQueue := cs\<rparr>) of
        (Inl e, s1) \<Rightarrow> (Inl e, s1)
      | (Inr u, s1) \<Rightarrow> send_queued cs s1)"

definition ws_onopen :: "jsval \<Rightarrow> wsrpc \<Rightarrow> unit result" where
  "ws_onopen ev s =
     (case send_queued (callQueue s) s of
        (Inl e, s1) \<Rightarrow> (Inl e, s1)
      | (Inr u, s1) \<Rightarrow>
          (case callEvents onconnect ev s1 of
             (Inl e, s2) \<Rightarrow> (Inl e, s2)
           | (Inr u, s2) \<Rightarrow> callEvents onchange ev s2))"

section \<open>Inbound frames\<close>

text \<open>
  A message event carries its \<^verbatim>\<open>type\<close> and its text. The text is kept as what
  \<^verbatim>\<open>JSON.parse\<close> makes of it: the decoded value, or the SyntaxError it throws.
  \<open>data_has\<close> is \<^verbatim>\<open>data.hasOwnProperty(name)\<close> for the member names the
  dispatcher asks about: it throws on \<^verbatim>\<open>null\<close>, and on an object whose own member
  \<^verbatim>\<open>hasOwnProperty\<close> hides the inherited function; \<open>data_get\<close> is \<^verbatim>\<open>data[name]\<close>
  on a value that is not \<^verbatim>\<open>null\<close>.
\<close>

record message =
  type' :: string
  data :: "jsval + jsval"

definition data_has :: "jsval \<Rightarrow> key \<Rightarrow> jsval + bool" where
  "data_has d name =
     (case d of
        JNull \<Rightarrow> Inl (JErr ''Cannot read properties of null (reading 'hasOwnProperty')'')
      | JUndefined \<Rightarrow>
          Inl (JErr ''Cannot read properties of undefined (reading 'hasOwnProperty')'')
      | JObj fs \<Rightarrow>
          if hasOwnProperty fs ''hasOwnProperty''
          then Inl (JErr ''data.hasOwnProperty is not a function'')
          else Inr (hasOwnProperty fs name)
      | _ \<Rightarrow> Inr False)"

definition data_get :: "jsval \<Rightarrow> key \<Rightarrow> jsval" where
  "data_get d name =
     (case d of
        JObj fs \<Rightarrow> (case obj_get fs name of Some v \<Rightarrow> v | None \<Rightarrow> JUndefined)
      | _ \<Rightarrow> JUndefined)"

definition truthy :: "jsval \<Rightarrow> bool" where
  "truthy v =
     (case v of
        JUndefined \<Rightarrow> False
      | JNull \<Rightarrow> False
      | JBool b \<Rightarrow> b
      | JNum n \<Rightarrow> n \<noteq> 0
      | JStr t \<Rightarrow> t \<noteq> []
      | _ \<Rightarrow> True)"

definition exception_message :: "jsval \<Rightarrow> jsval + jsval" where
  \<comment> \<open>\<^verbatim>\<open>exception.message\<close>\<close>
  "exception_message e =
     (case e of
        JErr m \<Rightarrow> Inr (JStr m)
      | JObj fs \<Rightarrow> Inr (data_get e ''message'')
      | JNull \<Rightarrow> Inl (JErr ''Cannot read properties of null (reading 'message')'')
      | JUndefined \<Rightarrow> Inl (JErr ''Cannot read properties of undefined (reading 'message')'')
      | _ \<Rightarrow> Inr JUndefined)"

text \<open>
  \<^verbatim>\<open>handleCall\<close> tests \<^verbatim>\<open>self.routes.hasOwnProperty(data.method)\<close>. The function
  that runs is the one the route table has under that name: the inherited test
  for an own property, unless a route named \<^verbatim>\<open>hasOwnProperty\<close> was added, in which
  case it is that route's callback and the test passes when the callback returns
  a truthy value. After a test that passed, \<^verbatim>\<open>self.routes[data.method]\<close> and
  \<^verbatim>\<open>self.asyncRoutes[data.method]\<close> are plain reads: \<open>member\<close> is what such a read
  finds, an own property, a member that every object inherits, or nothing.
  \<open>Object_prototype_apply\<close> is what the inherited member named \<open>k\<close> does when
  \<^verbatim>\<open>handleCall\<close> applies it, as \<^verbatim>\<open>JSON.stringify\<close> would write its result: the
  \<^verbatim>\<open>__proto__\<close> member is an object without \<^verbatim>\<open>apply\<close>, \<^verbatim>\<open>__defineGetter__\<close> and
  \<^verbatim>\<open>__defineSetter__\<close> refuse a missing function, and the members that take a
  property name convert their argument.
\<close>

datatype 'a member = Own 'a | Inherited | Missing

definition prop_read :: "'a obj \<Rightarrow> key \<Rightarrow> 'a member" where
  "prop_read ob k =
     (case obj_get ob k of
        Some v \<Rightarrow> Own v
      | None \<Rightarrow> if k \<in> set object_prototype_keys then Inherited else Missing)"

definition Object_prototype_apply :: "key \<Rightarrow> jsval \<Rightarrow> jsval + jsval" where
  "Object_prototype_apply k arg =
     (if k = ''__proto__'' then Inl (JErr ''func.apply is not a function'')
      else if k = ''__defineGetter__''
        then Inl (JErr ''Object.prototype.__defineGetter__: Expecting function'')
      else if k = ''__defineSetter__''
        then Inl (JErr ''Object.prototype.__defineSetter__: Expecting function'')
      else if k = ''hasOwnProperty'' \<or> k = ''propertyIsEnumerable''
        then (case to_key arg of
                Inl e \<Rightarrow> Inl e
              | Inr name \<Rightarrow> Inr (JBool (name = ''resolve'' \<or> name = ''reject'')))
      else if k = ''__lookupGetter__'' \<or> k = ''__lookupSetter__''
        then (case to_key arg of Inl e \<Rightarrow> Inl e | Inr name \<Rightarrow> Inr JUndefined)
      else if k = ''isPrototypeOf'' then Inr (JBool False)
      else if k = ''toString'' \<or> k = ''toLocaleString'' then Inr (JStr ''[object Object]'')
      else if k = ''valueOf'' then Inr (JObj [])
      else (case arg of JUndefined \<Rightarrow> Inr (JObj []) | JNull \<Rightarrow> Inr (JObj []) | v \<Rightarrow> Inr v))"

definition routes_hasOwnProperty :: "wsrpc \<Rightarrow> jsval \<Rightarrow> jsval + bool" where
  \<comment> \<open>\<^verbatim>\<open>self.routes.hasOwnProperty(v)\<close>\<close>
  "routes_hasOwnProperty s v =
     (case obj_get (routes s) ''hasOwnProperty'' of
        Some callback \<Rightarrow>
          (case apply_table callback v of Inl e \<Rightarrow> Inl e | Inr r \<Rightarrow> Inr (truthy r))
      | None \<Rightarrow>
          (case to_key v of Inl e \<Rightarrow> Inl e | Inr m \<Rightarrow> Inr (hasOwnProperty (routes s) m)))"

definition handleCall :: "jsval \<Rightarrow> wsrpc \<Rightarrow> unit result" where
  "handleCall d s =
     (case routes_hasOwnProperty s (data_get d ''method'') of
        Inl e \<Rightarrow> (Inl e, s)
      | Inr False \<Rightarrow> (Inl (JErr ''Route not found''), s)
      | Inr True \<Rightarrow>
          (let (deferred, s1) =
                 new_Deferred (Some (connectionNumber s, data_get d ''id'')) s
           in case to_key (data_get d ''method'') of
                Inl e \<Rightarrow> (Inl e, s1)
              | Inr m \<Rightarrow>
                  (let func = prop_read (routes s1) m;
                       isAsync = (case prop_read (asyncRoutes s1) m of
                                    Own flag \<Rightarrow> flag
                                  | Inherited \<Rightarrow> True
                                  | Missing \<Rightarrow> False)
                   in if isAsync then
                        (case func of
                           Own callback \<Rightarrow>
                             (case apply_deferred callback (data_get d ''params'') of
                                (settled, thrown) \<Rightarrow>
                                  (let s2 = (case settled of
                                               None \<Rightarrow> s1
                                             | Some oc \<Rightarrow> snd (settle oc deferred s1))
                                   in case thrown of
                                        None \<Rightarrow> (Inr (), s2)
                                      | Some e \<Rightarrow> (Inl e, s2)))
                         | Inherited \<Rightarrow>
                             (case Object_prototype_apply m (data_get d ''params'') of
                                Inl e \<Rightarrow> (Inl e, s1)
                              | Inr v \<Rightarrow> (Inr (), s1))
                         | Missing \<Rightarrow>
                             (Inl (JErr ''Cannot read properties of undefined (reading 'apply')''),
                              s1))
                      else
                        (case (case func of
                                 Own callback \<Rightarrow> apply_mock callback (data_get d ''params'')
                               | Inherited \<Rightarrow>
                                   Object_prototype_apply m (data_get d ''params'')
                               | Missing \<Rightarrow>
                                   Inl (JErr
                                     ''Cannot read properties of undefined (reading 'apply')'')) of
                           Inr v \<Rightarrow> (Inr (), snd (settle (Resolved v) deferred s1))
                         | Inl e \<Rightarrow> (Inr (), snd (settle (Rejected e) deferred s1))))))"

definition handleError :: "jsval \<Rightarrow> wsrpc \<Rightarrow> unit result" where
  "handleError d s =
     (case to_key (data_get d ''id'') of
        Inl e \<Rightarrow> (Inl e, s)
      | Inr k \<Rightarrow>
          (case obj_get (store s) k of
             None \<Rightarrow> (Inr (), s)
           | Some deferred \<Rightarrow>
               settle (Rejected (data_get d ''error'')) deferred
                 (s\<lparr>store := obj_delete k (store s)\<rparr>)))"

definition handleResult :: "jsval \<Rightarrow> wsrpc \<Rightarrow> unit result" where
  \<comment> \<open>\<^verbatim>\<open>self.store[data.id]\<close> is read without an own-property test: for a key the
      store inherits, the value is no Deferred and calling its \<^verbatim>\<open>resolve\<close> or
      \<^verbatim>\<open>reject\<close> throws.\<close>
  "handleResult d s =
     (case to_key (data_get d ''id'') of
        Inl e \<Rightarrow> (Inl e, s)
      | Inr k \<Rightarrow>
          (case obj_get (store s) k of
             None \<Rightarrow>
               if k \<in> set object_prototype_keys
               then (case data_has d ''result'' of
                       Inl e \<Rightarrow> (Inl e, s)
                     | Inr True \<Rightarrow> (Inl (JErr ''deferred.resolve is not a function''), s)
                     | Inr False \<Rightarrow> (Inl (JErr ''deferred.reject is not a function''), s))
               else (Inr (), s)
           | Some deferred \<Rightarrow>
               (let s1 = s\<lparr>store := obj_delete k (store s)\<rparr>
                in case data_has d ''result'' of
                     Inl e \<Rightarrow> (Inl e, s1)
                   | Inr True \<Rightarrow> settle (Resolved (data_get d ''result'')) deferred s1
                   | Inr False \<Rightarrow> settle (Rejected (data_get d ''error'')) deferred s1)))"

definition dispatch :: "jsval \<Rightarrow> wsrpc \<Rightarrow> unit result" where
  \<comment> \<open>The body of the \<^verbatim>\<open>try\<close> block once the text is decoded. The server event
      listeners are called inside their own \<^verbatim>\<open>try\<close>, whose \<^verbatim>\<open>catch\<close> only prints.\<close>
  "dispatch d s =
     (case data_has d ''id'' of
        Inl e \<Rightarrow> (Inl e, s)
      | Inr False \<Rightarrow> (Inr (), s)
      | Inr True \<Rightarrow>
          (case data_has d ''method'' of
             Inl e \<Rightarrow> (Inl e, s)
           | Inr True \<Rightarrow> handleCall d s
           | Inr False \<Rightarrow>
               (case data_has d ''error'' of
                  Inl e \<Rightarrow> (Inl e, s)
                | Inr has_error \<Rightarrow>
                    if has_error \<and> data_get d ''error'' = JNull
                    then handleError d s
                    else handleResult d s)))"

definition error_frame :: "jsval \<Rightarrow> jsval + jsval \<Rightarrow> jsval" where
  \<comment> \<open>the object \<^verbatim>\<open>err\<close> of the \<^verbatim>\<open>catch\<close> block, as \<^verbatim>\<open>JSON.stringify\<close> writes it\<close>
  "error_frame msg dat =
     JSON_stringify
       (JObj [(''error'', msg),
              (''result'', JNull),
              (''id'', (case dat of
                         Inl e \<Rightarrow> JNull
                       | Inr d \<Rightarrow> if truthy d then data_get d ''id'' else JNull))])"

definition ws_onmessage :: "message \<Rightarrow> wsrpc \<Rightarrow> unit result" where
  "ws_onmessage msg s =
     (if type' msg \<noteq> ''message'' then (Inr (), s)
      else case (case data msg of Inl e \<Rightarrow> (Inl e, s) | Inr d \<Rightarrow> dispatch d s) of
             (Inr u, s1) \<Rightarrow> (Inr (), run_jobs s1)
           | (Inl exception, s1) \<Rightarrow>
               (case exception_message exception of
                  Inl e \<Rightarrow> (Inl e, run_jobs s1)
                | Inr m \<Rightarrow>
                    (case socket_send (error_frame m (data msg)) s1 of
                       (Inl e, s2) \<Rightarrow> (Inl e, run_jobs s2)
                     | (Inr u, s2) \<Rightarrow> (Inr (), run_jobs s2))))"

section \<open>The public operations\<close>

definition createSocket :: "jsval option \<Rightarrow> wsrpc \<Rightarrow> nat result" where
  \<comment> \<open>\<open>fails\<close> is what \<^verbatim>\<open>new WebSocket(URL)\<close> throws, if it throws.\<close>
  "createSocket fails s =
     (case fails of
        Some e \<Rightarrow> (Inl e, s)
      | None \<Rightarrow>
          (Inr (sockets_size s),
           s\<lparr>sockets := (sockets s)(sockets_size s := WebSocket),
             sockets_size := Suc (sockets_size s)\<rparr>))"

definition call :: "jsval \<Rightarrow> jsval \<Rightarrow> bool \<Rightarrow> wsrpc \<Rightarrow> nat result" where
  "call func args noWait s = makeCall func args noWait s"

definition addRoute :: "key \<Rightarrow> handler \<Rightarrow> bool \<Rightarrow> wsrpc \<Rightarrow> wsrpc" where
  "addRoute route callback isAsync s =
     s\<lparr>asyncRoutes := obj_set route isAsync (asyncRoutes s),
       routes := obj_set route callback (routes s)\<rparr>"

definition deleteRoute :: "key \<Rightarrow> wsrpc \<Rightarrow> bool \<times> wsrpc" where
  "deleteRoute route s =
     (delete_result route (routes s),
      s\<lparr>asyncRoutes := obj_delete route (asyncRoutes s),
        routes := obj_delete route (routes s)\<rparr>)"

definition addEventListener :: "evname \<Rightarrow> listener \<Rightarrow> wsrpc \<Rightarrow> int \<times> wsrpc" where
  "addEventListener event func s =
     (eventId s,
      s\<lparr>eventId := num_add (eventId s) 1,
        eventStore := (eventStore s)
          (event := obj_set (num_key (eventId s)) func (eventStore s event))\<rparr>)"

definition removeEventListener :: "evname \<Rightarrow> key \<Rightarrow> wsrpc \<Rightarrow> bool \<times> wsrpc" where
  "removeEventListener event index s =
     (if hasOwnProperty (eventStore s event) index
      then (True,
            s\<lparr>eventStore := (eventStore s)
                (event := obj_delete index (eventStore s event))\<rparr>)
      else (False, s))"

definition onEvent :: "evname \<Rightarrow> wsrpc \<Rightarrow> nat \<times> wsrpc" where
  "onEvent event s =
     (let (deferred, s1) = new_Deferred None s
      in (deferred,
          s1\<lparr>oneTimeEventStore := (oneTimeEventStore s1)
               (event := oneTimeEventStore s1 event @ [deferred])\<rparr>))"

definition destroy :: "wsrpc \<Rightarrow> unit result" where
  "destroy s =
     (case socket s of
        None \<Rightarrow> (Inl (JErr ''Cannot read properties of undefined (reading 'close')''), s)
      | Some w \<Rightarrow> (Inr (), s\<lparr>sockets := (sockets s)(w := ws_close (sockets s w))\<rparr>))"

definition connect :: "jsval option \<Rightarrow> wsrpc \<Rightarrow> unit result" where
  "connect fails s =
     (case createSocket fails (s\<lparr>socketStarted := True\<rparr>) of
        (Inl e, s1) \<Rightarrow> (Inl e, s1)
      | (Inr ws, s1) \<Rightarrow> (Inr (), s1\<lparr>socket := Some ws\<rparr>))"

definition addServerEventListener :: "listener \<Rightarrow> wsrpc \<Rightarrow> int \<times> wsrpc" where
  \<comment> \<open>\<^verbatim>\<open>push\<close> returns the new length.\<close>
  "addServerEventListener callable s =
     (int (length (socketEventsListeners s @ [callable])) - 1,
      s\<lparr>socketEventsListeners := socketEventsListeners s @ [callable]\<rparr>)"

definition splice1 :: "int \<Rightarrow> 'a list \<Rightarrow> 'a list \<times> 'a list" where
  \<comment> \<open>\<^verbatim>\<open>xs.splice(index, 1)\<close>: the removed elements and the array that is left. A
      negative index counts from the end; the start is clamped to the array.\<close>
  "splice1 index xs =
     (let len = int (length xs);
          start = (if index < 0 then max (len + index) 0 else min index len);
          deleteCount = min (max 1 0) (len - start)
      in (take (nat deleteCount) (drop (nat start) xs),
          take (nat start) xs @ drop (nat (start + deleteCount)) xs))"

definition removeServerEventListener :: "int \<Rightarrow> wsrpc \<Rightarrow> nat \<times> wsrpc" where
  "removeServerEventListener index s =
     (case splice1 index (socketEventsListeners s) of
        (removed, rest) \<Rightarrow> (length removed, s\<lparr>socketEventsListeners := rest\<rparr>))"

definition timeout :: "jsval option \<Rightarrow> wsrpc \<Rightarrow> unit result" where
  \<comment> \<open>The function \<^verbatim>\<open>reconnect\<close> hands to \<^verbatim>\<open>setTimeout\<close>, run when one of the
      timeouts that are set fires.\<close>
  "timeout fails s =
     (if timers s = 0 then (Inr (), s)
      else case createSocket fails (s\<lparr>timers := timers s - 1\<rparr>) of
             (Inr ws, s1) \<Rightarrow> (Inr (), s1\<lparr>socket := Some ws, self_id := 1\<rparr>)
           | (Inl exc, s1) \<Rightarrow>
               (case callEvents onerror exc s1 of
                  (Inl e, s2) \<Rightarrow> (Inl e, s2)
                | (Inr u, s2) \<Rightarrow> (Inr (), s2\<lparr>socket := None\<rparr>)))"

text \<open>
  The constructor: the fields as it sets them, then the two routes it adds.
  \<^verbatim>\<open>log\<close> prints its argument through a template, which converts it to a
  string, and returns nothing; \<^verbatim>\<open>ping\<close> returns its argument.
\<close>

definition log_route :: handler where
  "log_route =
     Handler (\<lambda>argsObj. case to_key argsObj of Inl e \<Rightarrow> Inl e | Inr t \<Rightarrow> Inr JUndefined)
             (\<lambda>argsObj. case to_key argsObj of Inl e \<Rightarrow> (None, Some e) | Inr t \<Rightarrow> (None, None))
             (\<lambda>argsObj. case to_key argsObj of Inl e \<Rightarrow> Inl e | Inr t \<Rightarrow> Inr JUndefined)"

definition ping_route :: handler where
  "ping_route = Handler (\<lambda>d. Inr d) (\<lambda>d. (None, None)) (\<lambda>d. Inr d)"

definition WSRPC :: wsrpc where
  "WSRPC =
     addRoute ''ping'' ping_route False
       (addRoute ''log'' log_route False
          \<lparr>self_id = 1,
           eventId = 0,
           socketStarted = False,
           eventStore = (\<lambda>ev. []),
           connectionNumber = 0,
           oneTimeEventStore = (\<lambda>ev. []),
           callQueue = [],
           socket = None,
           socketEventsListeners = [\<lambda>event. None],
           asyncRoutes = [],
           routes = [],
           store = [],
           heap = (\<lambda>a. Deferred),
           heap_size = 0,
           sockets = (\<lambda>w. WebSocket),
           sockets_size = 0,
           timers = 0,
           jobs = []\<rparr>)"

section \<open>Runs of a client\<close>

text \<open>
  What can happen to a client, one entry per public operation, per transport
  event and per timer. When the browser fires \<^verbatim>\<open>open\<close> the socket's
  \<^verbatim>\<open>readyState\<close> is 1, and when it fires \<^verbatim>\<open>error\<close> or \<^verbatim>\<open>close\<close> it is 3.
  \<open>Settles\<close> is route code that resolves or rejects, some time after
  \<^verbatim>\<open>handleCall\<close> returned, the Deferred it was applied to.
\<close>

datatype step =
    Call jsval jsval bool
  | AddRoute key handler bool
  | DeleteRoute key
  | AddEventListener evname listener
  | RemoveEventListener evname key
  | OnEvent evname
  | Destroy
  | Connect "jsval option"
  | AddServerEventListener listener
  | RemoveServerEventListener int
  | Opens nat jsval
  | Closes nat jsval
  | Fails nat jsval
  | Receives nat message
  | Timeout "jsval option"
  | Settles nat outcome

definition set_readyState :: "nat \<Rightarrow> nat \<Rightarrow> wsrpc \<Rightarrow> wsrpc" where
  "set_readyState w c s = s\<lparr>sockets := (sockets s)(w := (sockets s w)\<lparr>ws_readyState := c\<rparr>)\<rparr>"

fun exec :: "step \<Rightarrow> wsrpc \<Rightarrow> wsrpc" where
  "exec (Call func args noWait) s = snd (call func args noWait s)"
| "exec (AddRoute route callback isAsync) s = addRoute route callback isAsync s"
| "exec (DeleteRoute route) s = snd (deleteRoute route s)"
| "exec (AddEventListener event func) s = snd (addEventListener event func s)"
| "exec (RemoveEventListener event index) s = snd (removeEventListener event index s)"
| "exec (OnEvent event) s = snd (onEvent event s)"
| "exec Destroy s = snd (destroy s)"
| "exec (Connect fails) s = snd (connect fails s)"
| "exec (AddServerEventListener callable) s = snd (addServerEventListener callable s)"
| "exec (RemoveServerEventListener index) s = snd (removeServerEventListener index s)"
| "exec (Opens w ev) s = snd (ws_onopen ev (set_readyState w 1 s))"
| "exec (Closes w err) s = snd (ws_onclose err (set_readyState w 3 s))"
| "exec (Fails w err) s = snd (ws_onerror err (set_readyState w 3 s))"
| "exec (Receives w msg) s = snd (ws_onmessage msg s)"
| "exec (Timeout fails) s = snd (timeout fails s)"
| "exec (Settles a oc) s =
     (if then_send (heap s a) = None then s else run_jobs (snd (settle oc a s)))"

fun run :: "step list \<Rightarrow> wsrpc \<Rightarrow> wsrpc" where
  "run [] s = s"
| "run (x # xs) s = run xs (exec x s)"

text \<open>
  The id a call is given is \<^verbatim>\<open>self.id\<close> as \<^verbatim>\<open>makeCall\<close> leaves it: the envelope
  takes it right after the increment and nothing in \<^verbatim>\<open>makeCall\<close> changes it
  again. \<open>call_ids\<close> lists the ids given by the calls of a run, in order;
  \<open>calls_in\<close> counts the calls of a run; \<open>envelopes\<close> are the envelopes that
  a sequence of calls builds, starting from a value of \<^verbatim>\<open>self.id\<close>.
\<close>

fun call_ids :: "step list \<Rightarrow> wsrpc \<Rightarrow> int list" where
  "call_ids [] s = []"
| "call_ids (Call func args noWait # xs) s =
     self_id (exec (Call func args noWait) s) # call_ids xs (exec (Call func args noWait) s)"
| "call_ids (x # xs) s = call_ids xs (exec x s)"

fun calls_in :: "step list \<Rightarrow> nat" where
  "calls_in [] = 0"
| "calls_in (Call func args noWait # xs) = Suc (calls_in xs)"
| "calls_in (x # xs) = calls_in xs"

fun envelopes :: "(jsval \<times> jsval \<times> bool) list \<Rightarrow> int \<Rightarrow> callObj list" where
  "envelopes [] i = []"
| "envelopes ((func, args, noWait) # cs) i =
     \<lparr>id' = num_add i 2, method' = func, params = args\<rparr> # envelopes cs (num_add i 2)"

fun calls :: "(jsval \<times> jsval \<times> bool) list \<Rightarrow> step list" where
  "calls [] = []"
| "calls ((func, args, noWait) # cs) = Call func args noWait # calls cs"

text \<open>
  \<open>runs_rejectQueue x s\<close>: the step \<open>x\<close>, taken in \<open>s\<close>, reaches the call of
  \<^verbatim>\<open>rejectQueue\<close>. \<^verbatim>\<open>ws.onerror\<close> starts with it; \<^verbatim>\<open>ws.onclose\<close> reaches it when
  its loop over the store has not thrown.
\<close>

fun runs_rejectQueue :: "step \<Rightarrow> wsrpc \<Rightarrow> bool" where
  "runs_rejectQueue (Fails w err) s = True"
| "runs_rejectQueue (Closes w err) s =
     (fst (close_stored (store s) (set_readyState w 3 s)) = Inr ())"
| "runs_rejectQueue x s = False"

text \<open>
  \<open>is_json v\<close>: \<open>v\<close> is a value \<^verbatim>\<open>JSON.parse\<close> can return: it holds neither
  \<^verbatim>\<open>undefined\<close> nor an \<^verbatim>\<open>Error\<close> object.
\<close>

fun is_json :: "jsval \<Rightarrow> bool" where
  "is_json JUndefined = False"
| "is_json (JErr m) = False"
| "is_json (JArr xs) = list_all is_json xs"
| "is_json (JObj fs) = list_all (\<lambda>p. is_json (snd p)) fs"
| "is_json v = True"

text \<open>
  The Deferreds that \<^verbatim>\<open>makeCall\<close> and \<^verbatim>\<open>onEvent\<close> create have no reaction of
  \<^verbatim>\<open>handleCall\<close> attached. \<open>plain s a\<close>: the address \<open>a\<close> is allocated and holds
  such a Deferred. \<open>wf s\<close>: the store and the one-time event lists hold plain
  Deferreds only.
\<close>

definition plain :: "wsrpc \<Rightarrow> nat \<Rightarrow> bool" where
  "plain s a = (a < heap_size s \<and> then_send (heap s a) = None)"

definition wf :: "wsrpc \<Rightarrow> bool" where
  "wf s = ((\<forall>p \<in> set (store s). plain s (snd p)) \<and>
           (\<forall>ev. \<forall>a \<in> set (oneTimeEventStore s ev). plain s a))"

section \<open>What each function leaves alone\<close>

lemma num_add_exact: "\<bar>a + b\<bar> \<le> 2 ^ 53 \<Longrightarrow> num_add a b = a + b"
  by (simp add: num_add_def num_round_def)

lemma settle_keeps [simp]:
  "self_id (snd (settle oc a s)) = self_id s"
  "connectionNumber (snd (settle oc a s)) = connectionNumber s"
  "routes (snd (settle oc a s)) = routes s"
  "asyncRoutes (snd (settle oc a s)) = asyncRoutes s"
  "socket (snd (settle oc a s)) = socket s"
  "socketStarted (snd (settle oc a s)) = socketStarted s"
  "sockets (snd (settle oc a s)) = sockets s"
  "callQueue (snd (settle oc a s)) = callQueue s"
  "store (snd (settle oc a s)) = store s"
  "timers (snd (settle oc a s)) = timers s"
  "eventStore (snd (settle oc a s)) = eventStore s"
  "oneTimeEventStore (snd (settle oc a s)) = oneTimeEventStore s"
  by (simp_all add: settle_def split: sum.splits)

lemma socket_send_keeps [simp]:
  "self_id (snd (socket_send text s)) = self_id s"
  "connectionNumber (snd (socket_send text s)) = connectionNumber s"
  "routes (snd (socket_send text s)) = routes s"
  "asyncRoutes (snd (socket_send text s)) = asyncRoutes s"
  "socket (snd (socket_send text s)) = socket s"
  "socketStarted (snd (socket_send text s)) = socketStarted s"
  "callQueue (snd (socket_send text s)) = callQueue s"
  "store (snd (socket_send text s)) = store s"
  "heap (snd (socket_send text s)) = heap s"
  "jobs (snd (socket_send text s)) = jobs s"
  "timers (snd (socket_send text s)) = timers s"
  by (simp_all add: socket_send_def split: option.splits sum.splits)

lemma run_reactions_keeps [simp]:
  "self_id (run_reactions js s) = self_id s"
  "connectionNumber (run_reactions js s) = connectionNumber s"
  "routes (run_reactions js s) = routes s"
  "asyncRoutes (run_reactions js s) = asyncRoutes s"
  "socket (run_reactions js s) = socket s"
  "callQueue (run_reactions js s) = callQueue s"
  "store (run_reactions js s) = store s"
  "heap (run_reactions js s) = heap s"
  "jobs (run_reactions js s) = jobs s"
  by (induction js s rule: run_reactions.induct; simp)+

lemma run_jobs_keeps [simp]:
  "self_id (run_jobs s) = self_id s"
  "connectionNumber (run_jobs s) = connectionNumber s"
  "routes (run_jobs s) = routes s"
  "asyncRoutes (run_jobs s) = asyncRoutes s"
  "socket (run_jobs s) = socket s"
  "callQueue (run_jobs s) = callQueue s"
  "store (run_jobs s) = store s"
  "heap (run_jobs s) = heap s"
  by (simp_all add: run_jobs_def)

lemma run_jobs_empty: "jobs s = [] \<Longrightarrow> run_jobs s = s"
  by (cases s) (simp add: run_jobs_def)

lemma reject_queued_keeps [simp]:
  "self_id (reject_queued cs s) = self_id s"
  "connectionNumber (reject_queued cs s) = connectionNumber s"
  "routes (reject_queued cs s) = routes s"
  "asyncRoutes (reject_queued cs s) = asyncRoutes s"
  "socket (reject_queued cs s) = socket s"
  "sockets (reject_queued cs s) = sockets s"
  "timers (reject_queued cs s) = timers s"
  "eventStore (reject_queued cs s) = eventStore s"
  "oneTimeEventStore (reject_queued cs s) = oneTimeEventStore s"
  by (induction cs arbitrary: s; simp add: Let_def split: option.splits)+

lemma reject_stored_keeps [simp]:
  "self_id (reject_stored ob s) = self_id s"
  "connectionNumber (reject_stored ob s) = connectionNumber s"
  "routes (reject_stored ob s) = routes s"
  "asyncRoutes (reject_stored ob s) = asyncRoutes s"
  "socket (reject_stored ob s) = socket s"
  "sockets (reject_stored ob s) = sockets s"
  "callQueue (reject_stored ob s) = callQueue s"
  "store (reject_stored ob s) = store s"
  "timers (reject_stored ob s) = timers s"
  "eventStore (reject_stored ob s) = eventStore s"
  "oneTimeEventStore (reject_stored ob s) = oneTimeEventStore s"
  by (induction ob s rule: reject_stored.induct; simp)+

lemma rejectQueue_keeps [simp]:
  "self_id (rejectQueue s) = self_id s"
  "connectionNumber (rejectQueue s) = num_add (connectionNumber s) 1"
  "routes (rejectQueue s) = routes s"
  "asyncRoutes (rejectQueue s) = asyncRoutes s"
  "socket (rejectQueue s) = socket s"
  "sockets (rejectQueue s) = sockets s"
  "timers (rejectQueue s) = timers s"
  "eventStore (rejectQueue s) = eventStore s"
  "oneTimeEventStore (rejectQueue s) = oneTimeEventStore s"
  by (simp_all add: rejectQueue_def Let_def)

lemma resolve_oneTime_keeps [simp]:
  "self_id (resolve_oneTime as ev s) = self_id s"
  "connectionNumber (resolve_oneTime as ev s) = connectionNumber s"
  "routes (resolve_oneTime as ev s) = routes s"
  "asyncRoutes (resolve_oneTime as ev s) = asyncRoutes s"
  "socket (resolve_oneTime as ev s) = socket s"
  "sockets (resolve_oneTime as ev s) = sockets s"
  "callQueue (resolve_oneTime as ev s) = callQueue s"
  "store (resolve_oneTime as ev s) = store s"
  "timers (resolve_oneTime as ev s) = timers s"
  "eventStore (resolve_oneTime as ev s) = eventStore s"
  by (induction as arbitrary: s; simp add: Let_def)+

lemma callEvents_keeps [simp]:
  "self_id (snd (callEvents evName event s)) = self_id s"
  "connectionNumber (snd (callEvents evName event s)) = connectionNumber s"
  "routes (snd (callEvents evName event s)) = routes s"
  "asyncRoutes (snd (callEvents evName event s)) = asyncRoutes s"
  "socket (snd (callEvents evName event s)) = socket s"
  "sockets (snd (callEvents evName event s)) = sockets s"
  "callQueue (snd (callEvents evName event s)) = callQueue s"
  "store (snd (callEvents evName event s)) = store s"
  "timers (snd (callEvents evName event s)) = timers s"
  by (simp_all add: callEvents_def Let_def)

lemma settle_eqD:
  "settle oc a s = (r, s1) \<Longrightarrow>
     self_id s1 = self_id s \<and> connectionNumber s1 = connectionNumber s \<and>
     routes s1 = routes s \<and> asyncRoutes s1 = asyncRoutes s \<and>
     socket s1 = socket s \<and> sockets s1 = sockets s \<and>
     callQueue s1 = callQueue s \<and> store s1 = store s \<and> timers s1 = timers s"
  using settle_keeps [of oc a s] by simp

lemma close_stored_eqD:
  "close_stored ob s = (r, s') \<Longrightarrow>
     self_id s' = self_id s \<and> connectionNumber s' = connectionNumber s \<and>
     routes s' = routes s \<and> asyncRoutes s' = asyncRoutes s \<and>
     socket s' = socket s \<and> sockets s' = sockets s \<and>
     callQueue s' = callQueue s \<and> store s' = store s \<and> timers s' = timers s"
proof (induction ob s rule: close_stored.induct)
  case (1 s)
  then show ?case by simp
next
  case (2 serial a ob s)
  obtain r1 s1 where st: "settle (Rejected (JStr ''Connection closed'')) a s = (r1, s1)"
    by (cases "settle (Rejected (JStr ''Connection closed'')) a s")
  note k = settle_eqD [OF st]
  show ?case
  proof (cases r1)
    case (Inl e)
    with "2.prems" st have "s' = s1" by simp
    with k show ?thesis by simp
  next
    case (Inr u)
    with "2.prems" st have "close_stored ob s1 = (r, s')" by simp
    from "2.IH" [OF st [symmetric] Inr this] k show ?thesis by simp
  qed
qed

lemma close_stored_keeps [simp]:
  "self_id (snd (close_stored ob s)) = self_id s"
  "connectionNumber (snd (close_stored ob s)) = connectionNumber s"
  "routes (snd (close_stored ob s)) = routes s"
  "asyncRoutes (snd (close_stored ob s)) = asyncRoutes s"
  "socket (snd (close_stored ob s)) = socket s"
  "sockets (snd (close_stored ob s)) = sockets s"
  "callQueue (snd (close_stored ob s)) = callQueue s"
  "store (snd (close_stored ob s)) = store s"
  "timers (snd (close_stored ob s)) = timers s"
  using close_stored_eqD [of ob s "fst (close_stored ob s)" "snd (close_stored ob s)"]
  by simp_all

lemma ws_onclose_keeps [simp]:
  "self_id (snd (ws_onclose err s)) = self_id s"
  "routes (snd (ws_onclose err s)) = routes s"
  "asyncRoutes (snd (ws_onclose err s)) = asyncRoutes s"
  "socket (snd (ws_onclose err s)) = socket s"
  "sockets (snd (ws_onclose err s)) = sockets s"
  by (simp_all add: ws_onclose_def reconnect_def case_prod_beta split: sum.splits)

lemma ws_onclose_connectionNumber:
  "connectionNumber (snd (ws_onclose err s)) =
     (if fst (close_stored (store s) s) = Inr ()
      then num_add (connectionNumber s) 1 else connectionNumber s)"
  by (simp add: ws_onclose_def reconnect_def case_prod_beta split: sum.splits)

lemma ws_onerror_keeps [simp]:
  "self_id (snd (ws_onerror err s)) = self_id s"
  "connectionNumber (snd (ws_onerror err s)) = num_add (connectionNumber s) 1"
  "routes (snd (ws_onerror err s)) = routes s"
  "asyncRoutes (snd (ws_onerror err s)) = asyncRoutes s"
  "socket (snd (ws_onerror err s)) = socket s"
  "sockets (snd (ws_onerror err s)) = sockets s"
  by (simp_all add: ws_onerror_def case_prod_beta split: sum.splits)

lemma send_queued_keeps [simp]:
  "self_id (snd (send_queued cs s)) = self_id s"
  "connectionNumber (snd (send_queued cs s)) = connectionNumber s"
  "routes (snd (send_queued cs s)) = routes s"
  "asyncRoutes (snd (send_queued cs s)) = asyncRoutes s"
  "socket (snd (send_queued cs s)) = socket s"
  "store (snd (send_queued cs s)) = store s"
  by (induction cs arbitrary: s; simp add: case_prod_beta split: sum.splits)+

lemma ws_onopen_keeps [simp]:
  "self_id (snd (ws_onopen ev s)) = self_id s"
  "connectionNumber (snd (ws_onopen ev s)) = connectionNumber s"
  "routes (snd (ws_onopen ev s)) = routes s"
  "asyncRoutes (snd (ws_onopen ev s)) = asyncRoutes s"
  "socket (snd (ws_onopen ev s)) = socket s"
  "store (snd (ws_onopen ev s)) = store s"
  by (simp_all add: ws_onopen_def case_prod_beta split: sum.splits)

lemma new_Deferred_keeps [simp]:
  "self_id (snd (new_Deferred r s)) = self_id s"
  "connectionNumber (snd (new_Deferred r s)) = connectionNumber s"
  "routes (snd (new_Deferred r s)) = routes s"
  "asyncRoutes (snd (new_Deferred r s)) = asyncRoutes s"
  "socket (snd (new_Deferred r s)) = socket s"
  "socketStarted (snd (new_Deferred r s)) = socketStarted s"
  "sockets (snd (new_Deferred r s)) = sockets s"
  "callQueue (snd (new_Deferred r s)) = callQueue s"
  "store (snd (new_Deferred r s)) = store s"
  "jobs (snd (new_Deferred r s)) = jobs s"
  "fst (new_Deferred r s) = heap_size s"
  by (simp_all add: new_Deferred_def)

lemma handleCall_keeps [simp]:
  "self_id (snd (handleCall d s)) = self_id s"
  "connectionNumber (snd (handleCall d s)) = connectionNumber s"
  "routes (snd (handleCall d s)) = routes s"
  "asyncRoutes (snd (handleCall d s)) = asyncRoutes s"
  "socket (snd (handleCall d s)) = socket s"
  "sockets (snd (handleCall d s)) = sockets s"
  "callQueue (snd (handleCall d s)) = callQueue s"
  "store (snd (handleCall d s)) = store s"
  by (simp_all add: handleCall_def case_prod_beta Let_def
        split: sum.splits option.splits bool.splits member.splits)

lemma handleError_keeps [simp]:
  "self_id (snd (handleError d s)) = self_id s"
  "connectionNumber (snd (handleError d s)) = connectionNumber s"
  "routes (snd (handleError d s)) = routes s"
  "asyncRoutes (snd (handleError d s)) = asyncRoutes s"
  "socket (snd (handleError d s)) = socket s"
  "sockets (snd (handleError d s)) = sockets s"
  "callQueue (snd (handleError d s)) = callQueue s"
  by (simp_all add: handleError_def split: sum.splits option.splits)

lemma handleResult_keeps [simp]:
  "self_id (snd (handleResult d s)) = self_id s"
  "connectionNumber (snd (handleResult d s)) = connectionNumber s"
  "routes (snd (handleResult d s)) = routes s"
  "asyncRoutes (snd (handleResult d s)) = asyncRoutes s"
  "socket (snd (handleResult d s)) = socket s"
  "sockets (snd (handleResult d s)) = sockets s"
  "callQueue (snd (handleResult d s)) = callQueue s"
  by (simp_all add: handleResult_def Let_def split: sum.splits option.splits bool.splits)

lemma dispatch_keeps [simp]:
  "self_id (snd (dispatch d s)) = self_id s"
  "connectionNumber (snd (dispatch d s)) = connectionNumber s"
  "routes (snd (dispatch d s)) = routes s"
  "asyncRoutes (snd (dispatch d s)) = asyncRoutes s"
  "socket (snd (dispatch d s)) = socket s"
  "sockets (snd (dispatch d s)) = sockets s"
  "callQueue (snd (dispatch d s)) = callQueue s"
  by (simp_all add: dispatch_def split: sum.splits bool.splits)

lemma ws_onmessage_keeps [simp]:
  "self_id (snd (ws_onmessage msg s)) = self_id s"
  "connectionNumber (snd (ws_onmessage msg s)) = connectionNumber s"
  "routes (snd (ws_onmessage msg s)) = routes s"
  "asyncRoutes (snd (ws_onmessage msg s)) = asyncRoutes s"
  "socket (snd (ws_onmessage msg s)) = socket s"
  "callQueue (snd (ws_onmessage msg s)) = callQueue s"
  by (simp_all add: ws_onmessage_def case_prod_beta split: sum.splits)

lemma createSocket_keeps [simp]:
  "self_id (snd (createSocket fails s)) = self_id s"
  "connectionNumber (snd (createSocket fails s)) = connectionNumber s"
  "timers (snd (createSocket fails s)) = timers s"
  by (simp_all add: createSocket_def split: option.splits)

lemma makeCall_self_id: "self_id (snd (makeCall func args noWait s)) = num_add (self_id s) 2"
  by (simp add: makeCall_def Let_def case_prod_beta split: sum.splits)

lemma makeCall_connectionNumber:
  "connectionNumber (snd (makeCall func args noWait s)) = connectionNumber s"
  by (simp add: makeCall_def Let_def case_prod_beta split: sum.splits)

lemma timeout_self_id:
  "self_id (snd (timeout fails s)) = (if 0 < timers s \<and> fails = None then 1 else self_id s)"
  by (cases fails) (simp_all add: timeout_def createSocket_def case_prod_beta split: sum.splits)

lemma timeout_connectionNumber:
  "connectionNumber (snd (timeout fails s)) = connectionNumber s"
  by (simp add: timeout_def case_prod_beta split: sum.splits)

lemma set_readyState_keeps [simp]:
  "self_id (set_readyState w c s) = self_id s"
  "connectionNumber (set_readyState w c s) = connectionNumber s"
  "store (set_readyState w c s) = store s"
  "heap (set_readyState w c s) = heap s"
  "callQueue (set_readyState w c s) = callQueue s"
  "socket (set_readyState w c s) = socket s"
  "jobs (set_readyState w c s) = jobs s"
  by (simp_all add: set_readyState_def)

lemma array_index_builtin: "array_index ''log'' = None" "array_index ''ping'' = None"
  by (simp_all add: array_index_def digit_val_def)

lemma routes_WSRPC: "routes WSRPC = [(''log'', log_route), (''ping'', ping_route)]"
  by (simp add: WSRPC_def addRoute_def obj_set_def array_index_builtin)

lemma map_of_obj_delete: "map_of (obj_delete k ob) k' = (if k' = k then None else map_of ob k')"
  by (induction ob) (auto simp: obj_delete_def)

section \<open>The states a run reaches\<close>

text \<open>
  Settling a Deferred of the store or of a one-time event list queues no
  reaction, and the reactions that \<^verbatim>\<open>handleCall\<close> and route code queue are run
  before the step ends. So in every state that a run of a new client reaches, no
  reaction is waiting.
\<close>

lemma plain_updates [simp]:
  "plain (s\<lparr>callQueue := q\<rparr>) = plain s"
  "plain (s\<lparr>store := ob\<rparr>) = plain s"
  "plain (s\<lparr>connectionNumber := c\<rparr>) = plain s"
  "plain (s\<lparr>jobs := js\<rparr>) = plain s"
  "plain (s\<lparr>oneTimeEventStore := ot\<rparr>) = plain s"
  "plain (s\<lparr>sockets := ws\<rparr>) = plain s"
  "plain (s\<lparr>timers := n\<rparr>) = plain s"
  "plain (s\<lparr>self_id := i\<rparr>) = plain s"
  "plain (s\<lparr>socket := so\<rparr>) = plain s"
  "plain (s\<lparr>socketStarted := b\<rparr>) = plain s"
  by (simp_all add: plain_def fun_eq_iff)

lemma wf_mono:
  assumes "wf s" "\<And>b. plain s b \<Longrightarrow> plain s' b" "set (store s') \<subseteq> set (store s)"
    "\<And>ev. set (oneTimeEventStore s' ev) \<subseteq> set (oneTimeEventStore s ev)"
  shows "wf s'"
  using assms unfolding wf_def by blast

lemma settle_plain [simp]: "plain (snd (settle oc a s)) = plain s"
  by (rule ext) (simp add: plain_def settle_def wrapper_def split: sum.splits)

lemma settle_jobs: "plain s a \<Longrightarrow> jobs (snd (settle oc a s)) = jobs s"
  by (simp add: plain_def settle_def wrapper_def split: sum.splits)

lemma settle_wf [simp]: "wf (snd (settle oc a s)) = wf s"
  by (simp add: wf_def)

lemma socket_send_plain [simp]:
  "plain (snd (socket_send text s)) = plain s"
  "oneTimeEventStore (snd (socket_send text s)) = oneTimeEventStore s"
  by (simp_all add: socket_send_def split: option.splits sum.splits)

lemma socket_send_wf [simp]: "wf (snd (socket_send text s)) = wf s"
  by (simp add: wf_def)

lemma run_reactions_wf [simp]:
  "wf (run_reactions js s) = wf s"
  by (induction js s rule: run_reactions.induct) simp_all

lemma run_jobs_wf [simp]: "wf (run_jobs s) = wf s" "jobs (run_jobs s) = []"
  by (simp_all add: run_jobs_def) (simp add: wf_def)

lemma set_obj_delete: "set (obj_delete k ob) \<subseteq> set ob"
  by (auto simp: obj_delete_def)

lemma wf_store_update:
  "wf s \<Longrightarrow> set ob \<subseteq> set (store s) \<Longrightarrow> wf (s\<lparr>store := ob\<rparr>)"
  unfolding wf_def by auto

lemma wf_updates [simp]:
  "wf (s\<lparr>callQueue := q\<rparr>) = wf s"
  "wf (s\<lparr>connectionNumber := c\<rparr>) = wf s"
  "wf (s\<lparr>timers := n\<rparr>) = wf s"
  "wf (s\<lparr>sockets := ws\<rparr>) = wf s"
  "wf (s\<lparr>self_id := i\<rparr>) = wf s"
  "wf (s\<lparr>socket := so\<rparr>) = wf s"
  "wf (s\<lparr>socketStarted := b\<rparr>) = wf s"
  by (simp_all add: wf_def)

lemma wf_lookup: "wf s \<Longrightarrow> obj_get (store s) k = Some a \<Longrightarrow> plain s a"
  unfolding wf_def obj_get_def by (fastforce dest: map_of_SomeD)

lemma reject_queued_wf:
  "wf s \<Longrightarrow> wf (reject_queued cs s) \<and> jobs (reject_queued cs s) = jobs s"
proof (induction cs arbitrary: s)
  case Nil
  then show ?case by simp
next
  case (Cons c cs)
  let ?k = "num_key (id' c)"
  let ?s1 = "s\<lparr>callQueue := cs, store := obj_delete ?k (store s)\<rparr>"
  have "wf (s\<lparr>callQueue := cs\<rparr>)" using Cons.prems by simp
  from wf_store_update [OF this, of "obj_delete ?k (store s)"] set_obj_delete [of ?k "store s"]
  have w1: "wf ?s1" by simp
  show ?case
  proof (cases "obj_get (store s) ?k")
    case None
    with Cons.IH [OF w1] show ?thesis by simp
  next
    case (Some a)
    then have "plain s a" using Cons.prems wf_lookup by blast
    then have p: "plain ?s1 a" by (simp add: plain_def)
    let ?s2 = "snd (settle (Rejected (JStr ''WebSocket error occurred'')) a ?s1)"
    have "wf ?s2" "jobs ?s2 = jobs s" using w1 settle_jobs [OF p] by simp_all
    with Cons.IH [of ?s2] Cons.IH [OF w1] Some show ?thesis
      by (simp add: Let_def)
  qed
qed

lemma reject_stored_wf:
  "wf s \<Longrightarrow> \<forall>p \<in> set ob. plain s (snd p) \<Longrightarrow>
     wf (reject_stored ob s) \<and> jobs (reject_stored ob s) = jobs s"
proof (induction ob s rule: reject_stored.induct)
  case (1 s)
  then show ?case by simp
next
  case (2 k a ob s)
  let ?s1 = "if isPending (heap s a)
             then snd (settle (Rejected (JStr ''WebSocket error occurred'')) a s) else s"
  have "wf ?s1" "jobs ?s1 = jobs s" "plain ?s1 = plain s"
    using "2.prems" by (simp_all add: settle_jobs)
  with "2.IH" [of ] "2.prems" show ?case by simp
qed

lemma rejectQueue_wf: "wf s \<Longrightarrow> wf (rejectQueue s) \<and> jobs (rejectQueue s) = jobs s"
proof -
  assume w: "wf s"
  let ?s1 = "s\<lparr>connectionNumber := num_add (connectionNumber s) 1\<rparr>"
  have w1: "wf ?s1" using w by simp
  let ?s2 = "reject_queued (callQueue ?s1) ?s1"
  have w2: "wf ?s2" "jobs ?s2 = jobs s" using reject_queued_wf [OF w1] by simp_all
  then have "\<forall>p \<in> set (store ?s2). plain ?s2 (snd p)" by (simp add: wf_def)
  from reject_stored_wf [OF w2(1) this] w2(2) show ?thesis
    by (simp add: rejectQueue_def Let_def)
qed


lemma wf_oneTime_update:
  "wf s \<Longrightarrow> set as \<subseteq> set (oneTimeEventStore s ev) \<Longrightarrow>
     wf (s\<lparr>oneTimeEventStore := (oneTimeEventStore s)(ev := as)\<rparr>)"
  unfolding wf_def by auto

lemma resolve_oneTime_wf:
  "wf s \<Longrightarrow> set as \<subseteq> set (oneTimeEventStore s ev) \<Longrightarrow>
     wf (resolve_oneTime as ev s) \<and> jobs (resolve_oneTime as ev s) = jobs s"
proof (induction as arbitrary: s)
  case Nil
  then show ?case by simp
next
  case (Cons a as)
  let ?s1 = "s\<lparr>oneTimeEventStore := (oneTimeEventStore s)(ev := as)\<rparr>"
  let ?s2 = "if isPending (heap ?s1 a) then snd (settle (Resolved JUndefined) a ?s1) else ?s1"
  have w1: "wf ?s1" using Cons.prems wf_oneTime_update [of s as ev] by simp
  have "plain s a" using Cons.prems unfolding wf_def by auto
  then have p: "plain ?s1 a" by simp
  have w2: "wf ?s2" "jobs ?s2 = jobs s" "set as \<subseteq> set (oneTimeEventStore ?s2 ev)"
    using w1 settle_jobs [OF p] by simp_all
  from Cons.IH [OF w2(1) w2(3)] w2(2) show ?case
    by (simp add: Let_def)
qed

lemma callEvents_wf:
  "wf s \<Longrightarrow> wf (snd (callEvents evName event s)) \<and>
     jobs (snd (callEvents evName event s)) = jobs s"
  using resolve_oneTime_wf [of s "oneTimeEventStore s evName" evName]
  by (simp add: callEvents_def Let_def)

lemma close_stored_wf:
  "wf s \<Longrightarrow> \<forall>p \<in> set ob. plain s (snd p) \<Longrightarrow>
     wf (snd (close_stored ob s)) \<and> jobs (snd (close_stored ob s)) = jobs s"
proof (induction ob s rule: close_stored.induct)
  case (1 s)
  then show ?case by simp
next
  case (2 serial a ob s)
  let ?s1 = "snd (settle (Rejected (JStr ''Connection closed'')) a s)"
  have k: "wf ?s1" "jobs ?s1 = jobs s" "\<forall>p \<in> set ob. plain ?s1 (snd p)"
    using "2.prems" by (simp_all add: settle_jobs)
  show ?case
  proof (cases "fst (settle (Rejected (JStr ''Connection closed'')) a s)")
    case (Inl e)
    then show ?thesis using k by (simp add: case_prod_beta)
  next
    case (Inr u)
    then have "settle (Rejected (JStr ''Connection closed'')) a s = (Inr u, ?s1)"
      by (simp add: prod_eq_iff)
    from "2.IH" [OF this [symmetric] refl k(1,3)] k(2) Inr show ?thesis
      by (simp add: case_prod_beta)
  qed
qed

lemma reconnect_wf [simp]: "wf (reconnect s) = wf s" "jobs (reconnect s) = jobs s"
  by (simp_all add: reconnect_def)

lemma ws_onclose_wf:
  assumes "wf s"
  shows "wf (snd (ws_onclose err s)) \<and> jobs (snd (ws_onclose err s)) = jobs s"
proof -
  let ?s1 = "snd (close_stored (store s) s)"
  have a: "wf ?s1" "jobs ?s1 = jobs s"
    using close_stored_wf [OF assms, of "store s"] assms by (simp_all add: wf_def)
  let ?s2 = "snd (callEvents onclose err (rejectQueue ?s1))"
  have b: "wf ?s2" "jobs ?s2 = jobs s"
    using rejectQueue_wf [OF a(1)] callEvents_wf [of "rejectQueue ?s1" onclose err] a(2)
    by simp_all
  let ?s3 = "snd (callEvents onchange err ?s2)"
  have c: "wf ?s3" "jobs ?s3 = jobs s"
    using callEvents_wf [OF b(1), of onchange err] b(2) by simp_all
  show ?thesis
    using a b c by (simp add: ws_onclose_def case_prod_beta split: sum.splits)
qed

lemma ws_onerror_wf:
  assumes "wf s"
  shows "wf (snd (ws_onerror err s)) \<and> jobs (snd (ws_onerror err s)) = jobs s"
proof -
  let ?s1 = "snd (callEvents onerror err (rejectQueue s))"
  have b: "wf ?s1" "jobs ?s1 = jobs s"
    using rejectQueue_wf [OF assms] callEvents_wf [of "rejectQueue s" onerror err]
    by simp_all
  let ?s2 = "snd (callEvents onchange err ?s1)"
  have c: "wf ?s2" "jobs ?s2 = jobs s"
    using callEvents_wf [OF b(1), of onchange err] b(2) by simp_all
  show ?thesis
    using b c by (simp add: ws_onerror_def case_prod_beta split: sum.splits)
qed

lemma send_queued_wf:
  "wf (snd (send_queued cs s)) = wf s \<and> jobs (snd (send_queued cs s)) = jobs s"
  by (induction cs arbitrary: s) (simp_all add: case_prod_beta split: sum.splits)

lemma ws_onopen_wf:
  assumes "wf s"
  shows "wf (snd (ws_onopen ev s)) \<and> jobs (snd (ws_onopen ev s)) = jobs s"
proof -
  let ?s1 = "snd (send_queued (callQueue s) s)"
  have a: "wf ?s1" "jobs ?s1 = jobs s" using assms send_queued_wf by simp_all
  let ?s2 = "snd (callEvents onconnect ev ?s1)"
  have b: "wf ?s2" "jobs ?s2 = jobs s"
    using callEvents_wf [OF a(1), of onconnect ev] a(2) by simp_all
  let ?s3 = "snd (callEvents onchange ev ?s2)"
  have c: "wf ?s3" "jobs ?s3 = jobs s"
    using callEvents_wf [OF b(1), of onchange ev] b(2) by simp_all
  show ?thesis
    using a b c by (simp add: ws_onopen_def case_prod_beta split: sum.splits)
qed


lemma new_Deferred_plain:
  "plain s b \<Longrightarrow> plain (snd (new_Deferred r s)) b"
  "plain (snd (new_Deferred None s)) (heap_size s)"
  by (auto simp add: plain_def new_Deferred_def Deferred_def)

lemma new_Deferred_wf:
  "wf s \<Longrightarrow> wf (snd (new_Deferred r s))"
  "oneTimeEventStore (snd (new_Deferred r s)) = oneTimeEventStore s"
  using new_Deferred_plain(1) [of s _ r] unfolding wf_def
  by (auto simp add: new_Deferred_def)

lemma set_obj_insert: "set (obj_insert k v ob) \<subseteq> insert (k, v) (set ob)"
  by (induction ob) (auto split: option.splits if_splits)

lemma set_obj_set: "set (obj_set k v ob) \<subseteq> insert (k, v) (set ob)"
  using set_obj_insert [of k v ob] by (auto simp: obj_set_def)

lemma wf_store_add:
  "wf s \<Longrightarrow> plain s a \<Longrightarrow> wf (s\<lparr>store := obj_set k a (store s)\<rparr>)"
  using set_obj_set [of k a "store s"] unfolding wf_def by auto

lemma makeCall_wf:
  assumes "wf s"
  shows "wf (snd (makeCall func args noWait s)) \<and>
         jobs (snd (makeCall func args noWait s)) = jobs s"
proof -
  let ?s1 = "s\<lparr>self_id := num_add (self_id s) 2\<rparr>"
  let ?s2 = "snd (new_Deferred None ?s1)"
  let ?a = "heap_size s"
  have w2: "wf ?s2" using assms new_Deferred_wf(1) [of ?s1 None] by simp
  have p: "plain ?s2 ?a" using new_Deferred_plain(2) [of ?s1] by simp
  have j: "jobs ?s2 = jobs s" by simp
  let ?s3 = "?s2\<lparr>store := obj_set (num_key (self_id ?s2)) ?a (store ?s2)\<rparr>"
  have w3: "wf ?s3" using wf_store_add [OF w2 p] by simp
  have w4: "wf (?s3\<lparr>callQueue := q\<rparr>)" for q using w3 by simp
  have nd: "fst (new_Deferred None ?s1) = ?a" by simp
  show ?thesis
    using w2 w3 w4 j settle_jobs [OF p]
    by (simp add: makeCall_def Let_def case_prod_beta nd split: sum.splits)
qed

lemma handleCall_wf: "wf s \<Longrightarrow> wf (snd (handleCall d s))"
  using new_Deferred_wf(1) [of s]
  by (simp add: handleCall_def case_prod_beta Let_def
        split: sum.splits option.splits bool.splits member.splits)

lemma handleError_wf:
  assumes "wf s"
  shows "wf (snd (handleError d s)) \<and> jobs (snd (handleError d s)) = jobs s"
proof (cases "to_key (data_get d ''id'')")
  case (Inl e)
  then show ?thesis using assms by (simp add: handleError_def)
next
  case (Inr k)
  show ?thesis
  proof (cases "obj_get (store s) k")
    case None
    then show ?thesis using assms Inr by (simp add: handleError_def)
  next
    case (Some a)
    let ?s1 = "s\<lparr>store := obj_delete k (store s)\<rparr>"
    have "wf ?s1" using wf_store_update [OF assms set_obj_delete] .
    moreover have "plain ?s1 a" using wf_lookup [OF assms Some] by simp
    ultimately show ?thesis using Inr Some by (simp add: handleError_def settle_jobs)
  qed
qed

lemma handleResult_wf:
  assumes "wf s"
  shows "wf (snd (handleResult d s)) \<and> jobs (snd (handleResult d s)) = jobs s"
proof (cases "to_key (data_get d ''id'')")
  case (Inl e)
  then show ?thesis using assms by (simp add: handleResult_def)
next
  case (Inr k)
  show ?thesis
  proof (cases "obj_get (store s) k")
    case None
    then show ?thesis using assms Inr
      by (simp add: handleResult_def split: sum.splits bool.splits)
  next
    case (Some a)
    let ?s1 = "s\<lparr>store := obj_delete k (store s)\<rparr>"
    have "wf ?s1" using wf_store_update [OF assms set_obj_delete] .
    moreover have "plain ?s1 a" using wf_lookup [OF assms Some] by simp
    ultimately show ?thesis using Inr Some
      by (simp add: handleResult_def settle_jobs Let_def split: sum.splits bool.splits)
  qed
qed

lemma dispatch_wf: "wf s \<Longrightarrow> wf (snd (dispatch d s))"
  using handleCall_wf [of s d] handleError_wf [of s d] handleResult_wf [of s d]
  by (simp add: dispatch_def split: sum.splits bool.splits)

lemma ws_onmessage_wf:
  assumes "wf s" "jobs s = []"
  shows "wf (snd (ws_onmessage msg s)) \<and> jobs (snd (ws_onmessage msg s)) = []"
  using assms dispatch_wf [OF assms(1)]
  by (simp add: ws_onmessage_def case_prod_beta split: sum.splits)

lemma timeout_wf:
  assumes "wf s"
  shows "wf (snd (timeout fails s)) \<and> jobs (snd (timeout fails s)) = jobs s"
proof (cases fails)
  case None
  then show ?thesis using assms by (simp add: timeout_def createSocket_def wf_def plain_def)
next
  case (Some exc)
  have "wf (s\<lparr>timers := timers s - 1\<rparr>)" using assms by simp
  from callEvents_wf [OF this, of onerror exc] Some assms show ?thesis
    by (simp add: timeout_def createSocket_def case_prod_beta split: sum.splits)
qed

lemma onEvent_wf:
  assumes "wf s"
  shows "wf (snd (onEvent event s)) \<and> jobs (snd (onEvent event s)) = jobs s"
proof -
  let ?s1 = "snd (new_Deferred None s)"
  have w: "wf ?s1" "plain ?s1 (heap_size s)"
    using assms new_Deferred_wf(1) new_Deferred_plain(2) by simp_all
  then have "wf (?s1\<lparr>oneTimeEventStore := (oneTimeEventStore ?s1)
               (event := oneTimeEventStore ?s1 event @ [heap_size s])\<rparr>)"
    unfolding wf_def by auto
  then show ?thesis by (simp add: onEvent_def case_prod_beta)
qed

lemma exec_wf:
  assumes "wf s" "jobs s = []"
  shows "wf (exec x s) \<and> jobs (exec x s) = []"
proof (cases x)
  case (Call func args noWait)
  then show ?thesis using makeCall_wf [OF assms(1)] assms(2) by (simp add: exec.simps call_def)
next
  case (OnEvent event)
  then show ?thesis using onEvent_wf [OF assms(1)] assms(2) by (simp add: exec.simps)
next
  case (Opens w ev)
  have "wf (set_readyState w 1 s)" using assms(1) by (simp add: set_readyState_def)
  from ws_onopen_wf [OF this] Opens assms(2) show ?thesis by (simp add: exec.simps)
next
  case (Closes w err)
  have "wf (set_readyState w 3 s)" using assms(1) by (simp add: set_readyState_def)
  from ws_onclose_wf [OF this] Closes assms(2) show ?thesis by (simp add: exec.simps)
next
  case (Fails w err)
  have "wf (set_readyState w 3 s)" using assms(1) by (simp add: set_readyState_def)
  from ws_onerror_wf [OF this] Fails assms(2) show ?thesis by (simp add: exec.simps)
next
  case (Receives w msg)
  then show ?thesis using ws_onmessage_wf [OF assms] by (simp add: exec.simps)
next
  case (Timeout fails)
  then show ?thesis using timeout_wf [OF assms(1)] assms(2) by (simp add: exec.simps)
next
  case (Settles a oc)
  then show ?thesis using assms by (simp add: exec.simps)
qed (use assms in \<open>simp_all add: exec.simps addRoute_def deleteRoute_def addEventListener_def
       removeEventListener_def destroy_def connect_def createSocket_def
       addServerEventListener_def removeServerEventListener_def wf_def plain_def
       split: option.splits prod.splits\<close>)

lemma run_wf: "wf s \<Longrightarrow> jobs s = [] \<Longrightarrow> wf (run xs s) \<and> jobs (run xs s) = []"
  by (induction xs arbitrary: s) (simp_all add: exec_wf)

lemma WSRPC_wf: "wf WSRPC" "jobs WSRPC = []"
  by (simp_all add: WSRPC_def addRoute_def wf_def)

lemma reachable_wf: "wf (run xs WSRPC) \<and> jobs (run xs WSRPC) = []"
  using run_wf [OF WSRPC_wf] .

section \<open>The Deferred settles once\<close>

text \<open>
  Claim C9. A Deferred is created pending. While it is pending, \<^verbatim>\<open>resolve\<close> and
  \<^verbatim>\<open>reject\<close> each return and leave it settled with the value or the reason
  given; once it is settled, \<^verbatim>\<open>isPending\<close> is false and both \<^verbatim>\<open>resolve\<close> and
  \<^verbatim>\<open>reject\<close> throw the Error "Promise already done".
\<close>

theorem Deferred_settles_once:
  "isPending Deferred \<and>
   (isPending d \<longrightarrow>
      (\<exists>d1 d2. resolve v d = Inr d1 \<and> \<not> isPending d1 \<and> promise d1 = Some (Resolved v) \<and>
               reject r d = Inr d2 \<and> \<not> isPending d2 \<and> promise d2 = Some (Rejected r))) \<and>
   (\<not> isPending d \<longrightarrow>
      resolve v d = Inl (JErr ''Promise already done'') \<and>
      reject r d = Inl (JErr ''Promise already done''))"
  by (simp add: isPending_def Deferred_def resolve_def reject_def wrapper_def)

theorem Deferred_settles_once_witness:
  "isPending Deferred \<and>
   resolve (JNum 1) Deferred = Inr (Deferred\<lparr>done' := True, promise := Some (Resolved (JNum 1))\<rparr>) \<and>
   \<not> isPending (Deferred\<lparr>done' := True, promise := Some (Resolved (JNum 1))\<rparr>) \<and>
   resolve JNull (Deferred\<lparr>done' := True, promise := Some (Resolved (JNum 1))\<rparr>) =
     Inl (JErr ''Promise already done'') \<and>
   reject JNull (Deferred\<lparr>done' := True, promise := Some (Resolved (JNum 1))\<rparr>) =
     Inl (JErr ''Promise already done'')"
  using Deferred_settles_once [of Deferred "JNum 1" JNull]
    Deferred_settles_once [of "Deferred\<lparr>done' := True, promise := Some (Resolved (JNum 1))\<rparr>" JNull JNull]
  by (simp add: isPending_def Deferred_def resolve_def wrapper_def)

section \<open>deleteRoute\<close>

text \<open>
  Claim C4 as the specification states it: \<^verbatim>\<open>deleteRoute\<close> returns false for a name
  that has no route. The client just constructed has the routes \<^verbatim>\<open>log\<close> and
  \<^verbatim>\<open>ping\<close> only, and \<^verbatim>\<open>deleteRoute\<close> of another name returns true: the function
  returns the value of the \<^verbatim>\<open>delete\<close> expression.
\<close>

theorem deleteRoute_absent_counterexample:
  "\<not> hasOwnProperty (routes WSRPC) ''nope'' \<and> fst (deleteRoute ''nope'' WSRPC) = True"
  by (simp add: routes_WSRPC hasOwnProperty_def deleteRoute_def delete_result_def)

text \<open>
  Claim C4, amended. For every route name, \<^verbatim>\<open>deleteRoute\<close> returns true, whether
  or not a route of that name existed; afterwards neither the route table nor
  the table of async flags has the name, and every other name has what it had.
\<close>

theorem deleteRoute_removes:
  "fst (deleteRoute route s) = True \<and>
   \<not> hasOwnProperty (routes (snd (deleteRoute route s))) route \<and>
   \<not> hasOwnProperty (asyncRoutes (snd (deleteRoute route s))) route \<and>
   (k \<noteq> route \<longrightarrow>
      obj_get (routes (snd (deleteRoute route s))) k = obj_get (routes s) k \<and>
      obj_get (asyncRoutes (snd (deleteRoute route s))) k = obj_get (asyncRoutes s) k)"
  by (simp add: deleteRoute_def delete_result_def hasOwnProperty_def obj_get_def map_of_obj_delete)

theorem deleteRoute_removes_witness:
  "fst (deleteRoute ''log'' WSRPC) = True \<and>
   \<not> hasOwnProperty (routes (snd (deleteRoute ''log'' WSRPC))) ''log'' \<and>
   obj_get (routes (snd (deleteRoute ''log'' WSRPC))) ''ping'' = Some ping_route \<and>
   fst (deleteRoute ''log'' (snd (deleteRoute ''log'' WSRPC))) = True"
  using deleteRoute_removes [of "''log''" WSRPC "''ping''"]
    deleteRoute_removes [of "''log''" "snd (deleteRoute ''log'' WSRPC)" "''ping''"]
  by (simp add: routes_WSRPC obj_get_def)

section \<open>Server event listeners\<close>

lemma splice1_inside:
  assumes "0 \<le> i" "i < int (length xs)"
  shows "splice1 i xs = ([xs ! nat i], take (nat i) xs @ drop (Suc (nat i)) xs)"
proof -
  from assms have n: "nat i < length xs" by linarith
  have "take (nat 1) (drop (nat i) xs) = [xs ! nat i]"
    using n by (simp add: Cons_nth_drop_Suc [symmetric])
  then show ?thesis
    using assms n by (simp add: splice1_def Let_def min_def max_def nat_add_distrib)
qed

lemma listeners_WSRPC: "socketEventsListeners WSRPC = [\<lambda>event. None]"
  by (simp add: WSRPC_def addRoute_def)

text \<open>
  Claim C10. The listeners are an array whose position 0 holds the built-in
  listener that prints the event, so the first \<^verbatim>\<open>addServerEventListener\<close>
  returns 1; in general it returns the position at which it stores the listener.
  \<^verbatim>\<open>removeServerEventListener\<close> of a position \<open>i\<close> of the array returns 1 and takes
  the element at \<open>i\<close> out: the positions below \<open>i\<close> keep their listeners, and
  the listener that was at a position \<open>j\<close> above \<open>i\<close> is at \<open>j - 1\<close> afterwards, so
  the id \<open>j\<close> that \<^verbatim>\<open>addServerEventListener\<close> returned for it no longer is its
  position.
\<close>

theorem removeServerEventListener_shifts:
  "socketEventsListeners WSRPC = [\<lambda>event. None] \<and>
   fst (addServerEventListener f WSRPC) = 1 \<and>
   fst (addServerEventListener f s) = int (length (socketEventsListeners s)) \<and>
   socketEventsListeners (snd (addServerEventListener f s)) = socketEventsListeners s @ [f] \<and>
   (0 \<le> i \<and> i < int (length (socketEventsListeners s)) \<longrightarrow>
      fst (removeServerEventListener i s) = 1 \<and>
      socketEventsListeners (snd (removeServerEventListener i s)) =
        take (nat i) (socketEventsListeners s) @ drop (Suc (nat i)) (socketEventsListeners s) \<and>
      length (socketEventsListeners (snd (removeServerEventListener i s))) =
        length (socketEventsListeners s) - 1 \<and>
      (j < nat i \<longrightarrow>
         socketEventsListeners (snd (removeServerEventListener i s)) ! j =
           socketEventsListeners s ! j) \<and>
      (nat i < j \<and> j < length (socketEventsListeners s) \<longrightarrow>
         socketEventsListeners (snd (removeServerEventListener i s)) ! (j - 1) =
           socketEventsListeners s ! j))"
proof -
  have a: "fst (addServerEventListener f WSRPC) = 1"
    by (simp add: addServerEventListener_def listeners_WSRPC)
  have b: "fst (addServerEventListener f s) = int (length (socketEventsListeners s))"
    by (simp add: addServerEventListener_def)
  have c: "socketEventsListeners (snd (addServerEventListener f s)) = socketEventsListeners s @ [f]"
    by (simp add: addServerEventListener_def)
  have d: "fst (removeServerEventListener i s) = 1 \<and>
      socketEventsListeners (snd (removeServerEventListener i s)) =
        take (nat i) (socketEventsListeners s) @ drop (Suc (nat i)) (socketEventsListeners s) \<and>
      length (socketEventsListeners (snd (removeServerEventListener i s))) =
        length (socketEventsListeners s) - 1 \<and>
      (j < nat i \<longrightarrow>
         socketEventsListeners (snd (removeServerEventListener i s)) ! j =
           socketEventsListeners s ! j) \<and>
      (nat i < j \<and> j < length (socketEventsListeners s) \<longrightarrow>
         socketEventsListeners (snd (removeServerEventListener i s)) ! (j - 1) =
           socketEventsListeners s ! j)"
    if h: "0 \<le> i" "i < int (length (socketEventsListeners s))"
  proof -
    let ?xs = "socketEventsListeners s"
    from h have n: "nat i < length ?xs" by linarith
    have r: "removeServerEventListener i s =
               (1, s\<lparr>socketEventsListeners := take (nat i) ?xs @ drop (Suc (nat i)) ?xs\<rparr>)"
      by (simp add: removeServerEventListener_def splice1_inside [OF h])
    have l: "length (take (nat i) ?xs @ drop (Suc (nat i)) ?xs) = length ?xs - 1"
      using n by simp
    have lo: "(take (nat i) ?xs @ drop (Suc (nat i)) ?xs) ! j = ?xs ! j" if "j < nat i"
      using that n by (simp add: nth_append)
    have hi: "(take (nat i) ?xs @ drop (Suc (nat i)) ?xs) ! (j - 1) = ?xs ! j"
      if "nat i < j" "j < length ?xs"
    proof -
      from that have "\<not> j - 1 < nat i" by linarith
      moreover have "Suc (nat i) + (j - 1 - nat i) = j" using that by linarith
      ultimately show ?thesis using that n by (simp add: nth_append min_def)
    qed
    show ?thesis using r l lo hi by simp
  qed
  from listeners_WSRPC a b c d show ?thesis by blast
qed


theorem removeServerEventListener_shifts_witness:
  "fst (addServerEventListener (\<lambda>e. Some JNull) WSRPC) = 1 \<and>
   fst (addServerEventListener (\<lambda>e. Some (JNum 2))
          (snd (addServerEventListener (\<lambda>e. Some JNull) WSRPC))) = 2 \<and>
   fst (removeServerEventListener 1
          (snd (addServerEventListener (\<lambda>e. Some (JNum 2))
             (snd (addServerEventListener (\<lambda>e. Some JNull) WSRPC))))) = 1 \<and>
   socketEventsListeners (snd (removeServerEventListener 1
          (snd (addServerEventListener (\<lambda>e. Some (JNum 2))
             (snd (addServerEventListener (\<lambda>e. Some JNull) WSRPC)))))) ! 1 =
     (\<lambda>e. Some (JNum 2))"
  using removeServerEventListener_shifts [of "\<lambda>e. Some JNull" WSRPC 0 0]
    removeServerEventListener_shifts
      [of "\<lambda>e. Some (JNum 2)" "snd (addServerEventListener (\<lambda>e. Some JNull) WSRPC)" 0 0]
    removeServerEventListener_shifts
      [of "\<lambda>e. None" "snd (addServerEventListener (\<lambda>e. Some (JNum 2))
             (snd (addServerEventListener (\<lambda>e. Some JNull) WSRPC)))" 1 2]
  by simp

section \<open>Calls while the socket is closed\<close>

lemma state_cong:
  "socketStarted s' = socketStarted s \<Longrightarrow> socket s' = socket s \<Longrightarrow> sockets s' = sockets s \<Longrightarrow>
     state s' = state s"
  by (simp add: state_def stateCode_def split: option.splits)

text \<open>
  Claim C7. A call with \<^verbatim>\<open>noWait\<close> made while \<^verbatim>\<open>state()\<close> is CLOSED returns the
  promise of a new Deferred that is already rejected, with the reason
  "Socket is: CLOSED", when \<^verbatim>\<open>call\<close> returns. The call leaves the store and the
  queue as they were, and sends nothing: no socket changes. The Deferred and the
  envelope are locals of \<^verbatim>\<open>makeCall\<close>, so nothing can store or queue them later.
\<close>

theorem call_noWait_closed:
  assumes "state s = JStr ''CLOSED''"
  shows "\<exists>s'. call func args True s = (Inr (heap_size s), s') \<and>
           promise (heap s' (heap_size s)) = Some (Rejected (JStr ''Socket is: CLOSED'')) \<and>
           \<not> isPending (heap s' (heap_size s)) \<and>
           store s' = store s \<and> callQueue s' = callQueue s \<and>
           socket s' = socket s \<and> sockets s' = sockets s"
proof -
  let ?s2 = "s\<lparr>self_id := num_add (self_id s) 2,
               heap := (heap s)(heap_size s := Deferred\<lparr>then_send := None\<rparr>),
               heap_size := Suc (heap_size s)\<rparr>"
  have st: "state ?s2 = JStr ''CLOSED''"
    using assms state_cong [of ?s2 s] by simp
  have nd: "new_Deferred None (s\<lparr>self_id := num_add (self_id s) 2\<rparr>) = (heap_size s, ?s2)"
    by (simp add: new_Deferred_def)
  have "makeCall func args True s =
          (case settle (Rejected (socket_is (JStr ''CLOSED''))) (heap_size s) ?s2 of
             (Inl e, s3) \<Rightarrow> (Inl e, s3)
           | (Inr u, s3) \<Rightarrow> (Inr (heap_size s), s3))"
    unfolding makeCall_def Let_def nd prod.case st by simp
  then show ?thesis
    by (simp add: call_def settle_def wrapper_def socket_is_def isPending_def Deferred_def)
qed

lemma state_WSRPC: "state WSRPC = JStr ''CLOSED''"
  by (simp add: state_def stateCode_def readyState_def WSRPC_def addRoute_def)

theorem call_noWait_closed_witness:
  "state WSRPC = JStr ''CLOSED'' \<and>
   (\<exists>s'. call (JStr ''ping'') (JStr ''hi'') True WSRPC = (Inr (heap_size WSRPC), s') \<and>
         promise (heap s' (heap_size WSRPC)) = Some (Rejected (JStr ''Socket is: CLOSED'')) \<and>
         \<not> isPending (heap s' (heap_size WSRPC)) \<and>
         store s' = store WSRPC \<and> callQueue s' = callQueue WSRPC \<and>
         socket s' = socket WSRPC \<and> sockets s' = sockets WSRPC)"
  using call_noWait_closed [OF state_WSRPC, of "JStr ''ping''" "JStr ''hi''"] state_WSRPC
  by simp

section \<open>Runs: the call id and the connection number\<close>

lemma exec_self_id:
  "self_id (exec x s) =
     (case x of
        Call func args noWait \<Rightarrow> num_add (self_id s) 2
      | Timeout fails \<Rightarrow> if 0 < timers s \<and> fails = None then 1 else self_id s
      | _ \<Rightarrow> self_id s)"
  by (cases x)
     (simp_all add: call_def makeCall_self_id timeout_self_id addRoute_def deleteRoute_def
        addEventListener_def removeEventListener_def onEvent_def destroy_def connect_def
        addServerEventListener_def removeServerEventListener_def case_prod_beta
        split: option.splits sum.splits)

lemma exec_connectionNumber:
  "connectionNumber (exec x s) =
     (if runs_rejectQueue x s then num_add (connectionNumber s) 1 else connectionNumber s)"
  by (cases x)
     (simp_all add: call_def makeCall_connectionNumber timeout_connectionNumber
        ws_onclose_connectionNumber addRoute_def deleteRoute_def
        addEventListener_def removeEventListener_def onEvent_def destroy_def connect_def
        addServerEventListener_def removeServerEventListener_def case_prod_beta
        split: option.splits sum.splits)

declare exec.simps [simp del]

lemma num_key_3: "num_key 3 = ''3''"
  by (simp add: num_key_def dec.simps digit_def)

lemma array_index_3: "array_index ''3'' = Some 3"
  by (simp add: array_index_def digit_val_def dec.simps digit_def)

lemma num_key_5: "num_key 5 = ''5''"
  by (simp add: num_key_def dec.simps digit_def)

lemma array_index_5: "array_index ''5'' = Some 5"
  by (simp add: array_index_def digit_val_def dec.simps digit_def)

lemma num_add_small: "num_add 1 2 = 3" "num_add 0 1 = 1" "num_add 3 2 = 5"
  by (simp_all add: num_add_def num_round_def)


lemmas run_defs =
  WSRPC_def addRoute_def obj_set_def array_index_builtin connect_def createSocket_def
  call_def makeCall_def new_Deferred_def state_def stateCode_def readyState_def WebSocket_def
  num_add_small num_key_3 array_index_3 Let_def set_readyState_def ws_onclose_def ws_onerror_def
  ws_onopen_def settle_def wrapper_def Deferred_def rejectQueue_def obj_get_def obj_delete_def
  isPending_def callEvents_def reconnect_def timeout_def socket_send_def ws_send_def
  callObj_json_def exec.simps


lemma call_ids_length: "length (call_ids xs s) = calls_in xs"
  by (induction xs s rule: call_ids.induct) simp_all

lemma call_ids_steps:
  assumes "Timeout None \<notin> set xs" "0 \<le> self_id s"
    and "self_id s + 2 * int (calls_in xs) \<le> 2 ^ 53"
  shows "call_ids xs s = map (\<lambda>i. self_id s + 2 * (int i + 1)) [0..<calls_in xs]"
  using assms
proof (induction xs arbitrary: s)
  case Nil
  then show ?case by simp
next
  case (Cons x xs)
  show ?case
  proof (cases x)
    case (Call func args noWait)
    let ?s' = "exec x s"
    from Cons.prems Call have b: "self_id s + 2 \<le> 2 ^ 53" by simp
    have ids: "call_ids (x # xs) s = self_id ?s' # call_ids xs ?s'"
      by (simp add: Call)
    with Cons.prems have id': "self_id ?s' = self_id s + 2"
      by (simp add: Call exec_self_id num_add_exact)
    have "call_ids xs ?s' = map (\<lambda>i. self_id ?s' + 2 * (int i + 1)) [0..<calls_in xs]"
      using Cons.prems Call id' by (intro Cons.IH) simp_all
    then have "call_ids (x # xs) s =
                 (self_id s + 2) # map (\<lambda>i. self_id s + 2 + 2 * (int i + 1)) [0..<calls_in xs]"
      using ids id' by simp
    also have "\<dots> = map (\<lambda>i. self_id s + 2 * (int i + 1)) (0 # map Suc [0..<calls_in xs])"
      by (simp add: comp_def algebra_simps)
    also have "0 # map Suc [0..<calls_in xs] = [0..<Suc (calls_in xs)]"
      by (simp add: map_Suc_upt upt_conv_Cons)
    finally show ?thesis using Call by simp
  next
    case (Timeout fails)
    with Cons.prems have "fails \<noteq> None" by (cases fails) auto
    then have "self_id (exec x s) = self_id s"
      by (auto simp add: Timeout exec_self_id)
    moreover have "call_ids (x # xs) s = call_ids xs (exec x s)" "calls_in (x # xs) = calls_in xs"
      using Timeout by simp_all
    ultimately show ?thesis using Cons.IH [of "exec x s"] Cons.prems by simp
  qed (use Cons.IH [of "exec x s"] Cons.prems in \<open>simp_all add: exec_self_id\<close>)
qed

lemma state_OPEN:
  "state s = JStr ''OPEN'' \<longleftrightarrow>
     socketStarted s \<and> (\<exists>w. socket s = Some w \<and> ws_readyState (sockets s w) = 1)"
  by (auto simp add: state_def stateCode_def readyState_def split: option.splits if_splits)

lemma makeCall_open:
  assumes "state s = JStr ''OPEN''" and "socket s = Some w"
  shows "snd (makeCall func args noWait s) =
           s\<lparr>self_id := num_add (self_id s) 2,
             heap := (heap s)(heap_size s := Deferred\<lparr>then_send := None\<rparr>),
             heap_size := Suc (heap_size s),
             store := obj_set (num_key (num_add (self_id s) 2)) (heap_size s) (store s),
             sockets := (sockets s)
               (w := (sockets s w)
                  \<lparr>sent := sent (sockets s w) @
                     [callObj_json \<lparr>id' = num_add (self_id s) 2, method' = func,
                                     params = args\<rparr>]\<rparr>)\<rparr>"
proof -
  let ?s2 = "s\<lparr>self_id := num_add (self_id s) 2,
               heap := (heap s)(heap_size s := Deferred\<lparr>then_send := None\<rparr>),
               heap_size := Suc (heap_size s)\<rparr>"
  have st: "state ?s2 = JStr ''OPEN''"
    using assms state_cong [of ?s2 s] by simp
  have nd: "new_Deferred None (s\<lparr>self_id := num_add (self_id s) 2\<rparr>) = (heap_size s, ?s2)"
    by (simp add: new_Deferred_def)
  have r: "ws_readyState (sockets s w) = 1"
    using assms by (auto simp add: state_OPEN)
  show ?thesis
    unfolding makeCall_def Let_def nd prod.case st
    using assms(2) r by (simp add: socket_send_def ws_send_def)
qed

lemma makeCall_queued:
  assumes "state s \<noteq> JStr ''OPEN''" and "state s = JStr ''CONNECTING'' \<or> \<not> noWait"
  shows "snd (makeCall func args noWait s) =
           s\<lparr>self_id := num_add (self_id s) 2,
             heap := (heap s)(heap_size s := Deferred\<lparr>then_send := None\<rparr>),
             heap_size := Suc (heap_size s),
             store := obj_set (num_key (num_add (self_id s) 2)) (heap_size s) (store s),
             callQueue := callQueue s @
               [\<lparr>id' = num_add (self_id s) 2, method' = func, params = args\<rparr>]\<rparr>"
proof -
  let ?s2 = "s\<lparr>self_id := num_add (self_id s) 2,
               heap := (heap s)(heap_size s := Deferred\<lparr>then_send := None\<rparr>),
               heap_size := Suc (heap_size s)\<rparr>"
  have st: "state ?s2 = state s"
    using state_cong [of ?s2 s] by simp
  have nd: "new_Deferred None (s\<lparr>self_id := num_add (self_id s) 2\<rparr>) = (heap_size s, ?s2)"
    by (simp add: new_Deferred_def)
  show ?thesis
    unfolding makeCall_def Let_def nd prod.case st
    using assms by auto
qed

lemma run_append: "run (xs @ ys) s = run ys (run xs s)"
  by (induction xs arbitrary: s) simp_all

lemma calls_in_append: "calls_in (xs @ ys) = calls_in xs + calls_in ys"
  by (induction xs rule: calls_in.induct) simp_all

lemma run_self_id:
  assumes "Timeout None \<notin> set xs" "0 \<le> self_id s"
    and "self_id s + 2 * int (calls_in xs) \<le> 2 ^ 53"
  shows "self_id (run xs s) = self_id s + 2 * int (calls_in xs)"
  using assms
proof (induction xs arbitrary: s)
  case Nil
  then show ?case by simp
next
  case (Cons x xs)
  show ?case
  proof (cases x)
    case (Call func args noWait)
    from Cons.prems Call have "self_id (exec x s) = self_id s + 2"
      by (simp add: exec_self_id num_add_exact)
    with Cons.IH [of "exec x s"] Cons.prems Call show ?thesis by simp
  next
    case (Timeout fails)
    with Cons.prems have "fails \<noteq> None" by (cases fails) auto
    then have "self_id (exec x s) = self_id s"
      by (auto simp add: Timeout exec_self_id)
    with Cons.IH [of "exec x s"] Cons.prems Timeout show ?thesis by simp
  qed (use Cons.IH [of "exec x s"] Cons.prems in \<open>simp_all add: exec_self_id\<close>)
qed

lemma call_step:
  assumes "Timeout None \<notin> set xs" "0 \<le> self_id s"
    and "self_id s + 2 * int (calls_in xs) \<le> 2 ^ 53"
    and "i < length xs" and "xs ! i = Call func args noWait"
  shows "calls_in (take i xs) < calls_in xs"
    and "run (take (Suc i) xs) s = snd (makeCall func args noWait (run (take i xs) s))"
    and "num_add (self_id (run (take i xs) s)) 2 =
           self_id s + 2 * (int (calls_in (take i xs)) + 1)"
proof -
  have xs: "xs = take i xs @ Call func args noWait # drop (Suc i) xs"
    using assms(4,5) by (metis id_take_nth_drop)
  have c: "calls_in xs = calls_in (take i xs) + Suc (calls_in (drop (Suc i) xs))"
    using arg_cong [OF xs, of calls_in] by (simp add: calls_in_append)
  then show k: "calls_in (take i xs) < calls_in xs" by simp
  have "take (Suc i) xs = take i xs @ [Call func args noWait]"
    using assms(4,5) by (simp add: take_Suc_conv_app_nth)
  then show "run (take (Suc i) xs) s = snd (makeCall func args noWait (run (take i xs) s))"
    by (simp add: run_append exec.simps call_def)
  have "Timeout None \<notin> set (take i xs)"
    using assms(1) by (meson in_set_takeD)
  moreover have b: "self_id s + 2 * int (calls_in (take i xs)) + 2 \<le> 2 ^ 53"
    using assms(3) k by simp
  ultimately have "self_id (run (take i xs) s) = self_id s + 2 * int (calls_in (take i xs))"
    using run_self_id [of "take i xs" s] assms(2) by simp
  then show "num_add (self_id (run (take i xs) s)) 2 =
           self_id s + 2 * (int (calls_in (take i xs)) + 1)"
    using b assms(2) by (simp add: num_add_exact)
qed



text \<open>
  Claim C3 as the specification states it: the connection number goes up when a
  socket is constructed and at no other time. \<^verbatim>\<open>connect\<close> on a new client
  constructs a socket and leaves the connection number alone; the error event
  that follows constructs nothing and increments it.
\<close>

theorem connectionNumber_counterexample:
  "sockets_size (exec (Connect None) WSRPC) = Suc (sockets_size WSRPC) \<and>
   connectionNumber (exec (Connect None) WSRPC) = connectionNumber WSRPC \<and>
   sockets_size (exec (Fails 0 JNull) (exec (Connect None) WSRPC)) =
     sockets_size (exec (Connect None) WSRPC) \<and>
   connectionNumber (exec (Fails 0 JNull) (exec (Connect None) WSRPC)) =
     connectionNumber (exec (Connect None) WSRPC) + 1"
  by (simp add: run_defs)

text \<open>
  Claim C3, amended. A step changes the connection number exactly when it
  reaches \<^verbatim>\<open>rejectQueue\<close>, which every error event does and a close event does
  once its loop over the store is through; the number then goes up by one (as
  long as it is below \<open>2 ^ 53\<close>). \<^verbatim>\<open>connect\<close> and the reconnect timer, which
  construct the sockets, leave it as it is, and so does every other step.
\<close>

theorem connectionNumber_changes:
  "connectionNumber (exec x s) =
     (if runs_rejectQueue x s then num_add (connectionNumber s) 1 else connectionNumber s) \<and>
   (0 \<le> connectionNumber s \<and> connectionNumber s < 2 ^ 53 \<longrightarrow>
      num_add (connectionNumber s) 1 = connectionNumber s + 1) \<and>
   connectionNumber (exec (Connect fails) s) = connectionNumber s \<and>
   connectionNumber (exec (Timeout fails) s) = connectionNumber s"
  by (simp add: exec_connectionNumber num_add_exact)

theorem connectionNumber_changes_witness:
  "runs_rejectQueue (Fails 0 JNull) (exec (Connect None) WSRPC) \<and>
   \<not> runs_rejectQueue (Connect None) WSRPC \<and>
   connectionNumber (exec (Connect None) WSRPC) = 0 \<and>
   connectionNumber (exec (Fails 0 JNull) (exec (Connect None) WSRPC)) = 1"
  using connectionNumber_changes [of "Fails 0 JNull" "exec (Connect None) WSRPC" None]
    connectionNumber_changes [of "Connect None" WSRPC None]
  by (simp add: WSRPC_def addRoute_def num_add_small)

section \<open>An error event followed by a close event\<close>

text \<open>
  Claim C2, on the events a failing connection produces. A client connects, the
  socket opens and a call is sent; its Deferred is in the store under the key 3.
  The error event runs \<^verbatim>\<open>rejectQueue\<close>, which rejects the Deferred and leaves it in
  the store. The close event that follows starts with the loop of \<^verbatim>\<open>ws.onclose\<close>
  over the store, which calls \<^verbatim>\<open>reject\<close> on every entry without asking
  \<^verbatim>\<open>isPending\<close>: the Deferred throws "Promise already done", the handler ends
  there, and no reconnect timeout is set. After a close event alone one is set.
\<close>

theorem close_after_error_throws:
  "promise (heap (run [Connect None, Opens 0 JNull, Call (JStr ''m'') JNull False,
                       Fails 0 JNull] WSRPC) 0) =
     Some (Rejected (JStr ''WebSocket error occurred'')) \<and>
   store (run [Connect None, Opens 0 JNull, Call (JStr ''m'') JNull False,
               Fails 0 JNull] WSRPC) = [(''3'', 0)] \<and>
   fst (ws_onclose JNull (set_readyState 0 3
          (run [Connect None, Opens 0 JNull, Call (JStr ''m'') JNull False,
                Fails 0 JNull] WSRPC))) = Inl (JErr ''Promise already done'') \<and>
   timers (run [Connect None, Opens 0 JNull, Call (JStr ''m'') JNull False,
                Fails 0 JNull, Closes 0 JNull] WSRPC) = 0 \<and>
   timers (run [Connect None, Opens 0 JNull, Call (JStr ''m'') JNull False,
                Closes 0 JNull] WSRPC) = 1"
  by (simp add: run_defs)

section \<open>Calls queued while connecting\<close>

lemma makeCall_connecting:
  assumes "state s = JStr ''CONNECTING''"
  shows "callQueue (snd (makeCall func args noWait s)) =
           callQueue s @ [\<lparr>id' = num_add (self_id s) 2, method' = func, params = args\<rparr>]"
    and "socket (snd (makeCall func args noWait s)) = socket s"
    and "sockets (snd (makeCall func args noWait s)) = sockets s"
    and "socketStarted (snd (makeCall func args noWait s)) = socketStarted s"
proof -
  let ?s2 = "s\<lparr>self_id := num_add (self_id s) 2,
               heap := (heap s)(heap_size s := Deferred\<lparr>then_send := None\<rparr>),
               heap_size := Suc (heap_size s)\<rparr>"
  have st: "state ?s2 = JStr ''CONNECTING''"
    using assms state_cong [of ?s2 s] by simp
  have nd: "new_Deferred None (s\<lparr>self_id := num_add (self_id s) 2\<rparr>) = (heap_size s, ?s2)"
    by (simp add: new_Deferred_def)
  have m: "makeCall func args noWait s =
          (Inr (heap_size s),
            ?s2\<lparr>store := obj_set (num_key (self_id ?s2)) (heap_size s) (store ?s2),
               callQueue := callQueue ?s2 @ [\<lparr>id' = self_id ?s2, method' = func, params = args\<rparr>]\<rparr>)"
    unfolding makeCall_def Let_def nd prod.case st by simp
  show "callQueue (snd (makeCall func args noWait s)) =
           callQueue s @ [\<lparr>id' = num_add (self_id s) 2, method' = func, params = args\<rparr>]"
    and "socket (snd (makeCall func args noWait s)) = socket s"
    and "sockets (snd (makeCall func args noWait s)) = sockets s"
    and "socketStarted (snd (makeCall func args noWait s)) = socketStarted s"
    by (simp_all add: m)
qed

lemma calls_connecting:
  assumes "state s = JStr ''CONNECTING''"
  shows "callQueue (run (calls cs) s) = callQueue s @ envelopes cs (self_id s) \<and>
         socket (run (calls cs) s) = socket s \<and> sockets (run (calls cs) s) = sockets s"
  using assms
proof (induction cs arbitrary: s)
  case Nil
  then show ?case by simp
next
  case (Cons c cs)
  obtain func args noWait where c: "c = (func, args, noWait)" by (cases c)
  let ?s' = "exec (Call func args noWait) s"
  note k = makeCall_connecting [OF Cons.prems, of func args noWait]
  have s': "?s' = snd (makeCall func args noWait s)" by (simp add: exec.simps call_def)
  have "state ?s' = JStr ''CONNECTING''"
    using Cons.prems state_cong [of ?s' s] k by (simp add: s')
  from Cons.IH [OF this] k show ?case
    by (simp add: c s' makeCall_self_id)
qed

lemma send_queued_open:
  assumes "socket s = Some w" "ws_readyState (sockets s w) = 1"
  shows "fst (send_queued q s) = Inr () \<and>
         callQueue (snd (send_queued q s)) = (if q = [] then callQueue s else []) \<and>
         sent (sockets (snd (send_queued q s)) w) = sent (sockets s w) @ map callObj_json q"
  using assms
proof (induction q arbitrary: s)
  case Nil
  then show ?case by simp
next
  case (Cons c q)
  let ?s1 = "s\<lparr>callQueue := q,
               sockets := (sockets s)(w := (sockets s w)\<lparr>sent := sent (sockets s w) @ [callObj_json c]\<rparr>)\<rparr>"
  have snd1: "socket_send (callObj_json c) (s\<lparr>callQueue := q\<rparr>) = (Inr (), ?s1)"
    using Cons.prems by (simp add: socket_send_def ws_send_def)
  have "socket ?s1 = Some w" "ws_readyState (sockets ?s1 w) = 1"
    using Cons.prems by simp_all
  from Cons.IH [OF this] show ?case
    by (simp add: snd1)
qed

text \<open>
  Claim C8 as the specification states it: on transport open all queued
  envelopes are transmitted in the order of the calls. \<^verbatim>\<open>connect\<close> is called
  twice, so two sockets are connecting and \<^verbatim>\<open>self.socket\<close> is the second. Two
  calls are queued, with the ids 3 and 5. The first socket opens: \<^verbatim>\<open>ws.onopen\<close>
  takes the first envelope off the queue and sends it on \<^verbatim>\<open>self.socket\<close>, which
  is still connecting, so \<^verbatim>\<open>send\<close> throws InvalidStateError, the envelope is
  lost and the handler ends. When the second socket opens, only the second
  envelope is sent.
\<close>

theorem other_socket_opens_counterexample:
  "state 
     (run [Connect None, Connect None, Call (JStr ''x'') JNull False,
                 Call (JStr ''y'') JNull False] WSRPC) = JStr ''CONNECTING'' \<and>
   callQueue 
     (run [Connect None, Connect None, Call (JStr ''x'') JNull False,
                 Call (JStr ''y'') JNull False] WSRPC) =
     [\<lparr>id' = 3, method' = JStr ''x'', params = JNull\<rparr>,
      \<lparr>id' = 5, method' = JStr ''y'', params = JNull\<rparr>] \<and>
   fst (ws_onopen JNull (set_readyState 0 1 
     (run [Connect None, Connect None, Call (JStr ''x'') JNull False,
                 Call (JStr ''y'') JNull False] WSRPC))) = Inl (JErr ''InvalidStateError'') \<and>
   callQueue 
     (run [Connect None, Connect None, Call (JStr ''x'') JNull False,
                 Call (JStr ''y'') JNull False, Opens 0 JNull] WSRPC) = [\<lparr>id' = 5, method' = JStr ''y'', params = JNull\<rparr>] \<and>
   sent (sockets 
     (run [Connect None, Connect None, Call (JStr ''x'') JNull False,
                 Call (JStr ''y'') JNull False, Opens 0 JNull] WSRPC) 0) = [] \<and>
   sent (sockets 
     (run [Connect None, Connect None, Call (JStr ''x'') JNull False,
                 Call (JStr ''y'') JNull False, Opens 0 JNull] WSRPC) 1) = [] \<and>
   sent (sockets 
     (run [Connect None, Connect None, Call (JStr ''x'') JNull False,
                 Call (JStr ''y'') JNull False, Opens 0 JNull, Opens 1 JNull] WSRPC) 1) =
     [JObj [(''id'', JNum 5), (''method'', JStr ''y''), (''params'', JNull)]] \<and>
   sent (sockets 
     (run [Connect None, Connect None, Call (JStr ''x'') JNull False,
                 Call (JStr ''y'') JNull False, Opens 0 JNull, Opens 1 JNull] WSRPC) 0) = []"
  by (simp add: run_defs send_queued.simps)

text \<open>
  Claim C8, amended. While \<^verbatim>\<open>state()\<close> is CONNECTING, each call appends its
  envelope to the queue, so after a sequence of calls the queue is what it was
  followed by their envelopes in the order of the calls, with the ids
  \<^verbatim>\<open>self.id\<close> + 2, \<^verbatim>\<open>self.id\<close> + 4 and so on. When the socket that
  \<^verbatim>\<open>self.socket\<close> holds then opens, \<^verbatim>\<open>ws.onopen\<close> sends the queued envelopes
  in that order on it, after what it had sent before, and leaves the queue
  empty.
\<close>

theorem queued_calls_sent_in_order:
  assumes "state s = JStr ''CONNECTING''" and "socket s = Some w"
  shows "callQueue (run (calls cs) s) = callQueue s @ envelopes cs (self_id s) \<and>
         callQueue (exec (Opens w ev) (run (calls cs) s)) = [] \<and>
         sent (sockets (exec (Opens w ev) (run (calls cs) s)) w) =
           sent (sockets s w) @ map callObj_json (callQueue s @ envelopes cs (self_id s))"
proof -
  define s1 where "s1 = run (calls cs) s"
  define s2 where "s2 = set_readyState w 1 s1"
  have c: "callQueue s1 = callQueue s @ envelopes cs (self_id s)"
    "socket s1 = socket s" "sockets s1 = sockets s"
    using calls_connecting [OF assms(1), of cs] by (simp_all add: s1_def)
  have o: "socket s2 = Some w" "ws_readyState (sockets s2 w) = 1"
    using c assms(2) by (simp_all add: s2_def set_readyState_def)
  have s2: "sent (sockets s2 w) = sent (sockets s w)" "callQueue s2 = callQueue s1"
    using c by (simp_all add: s2_def set_readyState_def)
  note q = send_queued_open [OF o, of "callQueue s2"]
  have e: "exec (Opens w ev) s1 = snd (ws_onopen ev s2)"
    by (simp add: exec.simps s2_def)
  have k: "callQueue (snd (ws_onopen ev s2)) = callQueue (snd (send_queued (callQueue s2) s2))"
          "sockets (snd (ws_onopen ev s2)) = sockets (snd (send_queued (callQueue s2) s2))"
    using q by (simp_all add: ws_onopen_def case_prod_beta split: sum.splits)
  have "callQueue (snd (ws_onopen ev s2)) = []"
    using q by (cases "callQueue s2 = []") (simp_all add: k)
  moreover have "sent (sockets (snd (ws_onopen ev s2)) w) =
                   sent (sockets s w) @ map callObj_json (callQueue s @ envelopes cs (self_id s))"
    using q by (simp add: k s2 c)
  ultimately show ?thesis
    using c(1) unfolding e s1_def [symmetric] by simp
qed


theorem queued_calls_sent_in_order_witness:
  "state (run [Call (JStr ''first'') JNull False, Connect None] WSRPC) = JStr ''CONNECTING'' \<and>
   socket (run [Call (JStr ''first'') JNull False, Connect None] WSRPC) = Some 0 \<and>
   callQueue (run (calls [(JStr ''second'', JNum 1, False)])
                (run [Call (JStr ''first'') JNull False, Connect None] WSRPC)) =
     [\<lparr>id' = 3, method' = JStr ''first'', params = JNull\<rparr>,
      \<lparr>id' = 5, method' = JStr ''second'', params = JNum 1\<rparr>] \<and>
   callQueue (exec (Opens 0 JNull) (run (calls [(JStr ''second'', JNum 1, False)])
                (run [Call (JStr ''first'') JNull False, Connect None] WSRPC))) = [] \<and>
   sent (sockets (exec (Opens 0 JNull) (run (calls [(JStr ''second'', JNum 1, False)])
                (run [Call (JStr ''first'') JNull False, Connect None] WSRPC))) 0) =
     [JObj [(''id'', JNum 3), (''method'', JStr ''first''), (''params'', JNull)],
      JObj [(''id'', JNum 5), (''method'', JStr ''second''), (''params'', JNum 1)]]"
proof -
  define s where "s = run [Call (JStr ''first'') JNull False, Connect None] WSRPC"
  have a: "state s = JStr ''CONNECTING''" by (simp add: s_def run_defs)
  have b: "socket s = Some 0" by (simp add: s_def run_defs)
  have c: "callQueue s = [\<lparr>id' = 3, method' = JStr ''first'', params = JNull\<rparr>]"
    "self_id s = 3" "sent (sockets s 0) = []"
    by (simp_all add: s_def run_defs)
  show ?thesis
    unfolding s_def [symmetric]
    using queued_calls_sent_in_order [OF a b, of "[(JStr ''second'', JNum 1, False)]" JNull] a b
    by (simp add: c num_add_small callObj_json_def)
qed

section \<open>Inbound frames that name no route or carry a null error\<close>

lemma JSON_stringify_json:
  "is_json v \<longrightarrow> JSON_stringify v = v"
  "list_all (\<lambda>p. is_json (snd p)) fs \<longrightarrow> stringify_members fs = fs"
  "list_all is_json xs \<longrightarrow> stringify_elems xs = xs"
  by (induction v and fs and xs rule: JSON_stringify_stringify_members_stringify_elems.induct)
     auto

lemma is_json_member:
  "is_json (JObj fs) \<Longrightarrow> map_of fs name = Some v \<Longrightarrow> is_json v"
  by (induction fs) (auto split: if_splits)

lemma data_has_obj:
  "data_has d name = Inr True \<Longrightarrow> \<exists>fs v. d = JObj fs \<and> map_of fs name = Some v \<and> data_get d name = v"
  by (cases d) (auto simp: data_has_def data_get_def hasOwnProperty_def obj_get_def split: if_splits)

lemma to_key_error:
  "to_key v = Inl e \<longrightarrow> e = JErr ''Cannot convert object to primitive value''"
  "join_keys xs = Inl e \<longrightarrow> e = JErr ''Cannot convert object to primitive value''"
  by (induction v and xs rule: to_key_join_keys.induct)
     (auto split: if_splits sum.splits)

lemma handleCall_no_route:
  assumes "\<not> hasOwnProperty (routes s) ''hasOwnProperty''"
    and "case to_key (data_get d ''method'') of
             Inl e \<Rightarrow> True | Inr m \<Rightarrow> \<not> hasOwnProperty (routes s) m"
  shows "handleCall d s =
           (Inl (JErr (case to_key (data_get d ''method'') of
                         Inl e \<Rightarrow> ''Cannot convert object to primitive value''
                       | Inr m \<Rightarrow> ''Route not found'')), s)"
proof (cases "to_key (data_get d ''method'')")
  case (Inl e)
  then have "e = JErr ''Cannot convert object to primitive value''"
    using to_key_error(1) by blast
  with Inl assms(1) show ?thesis
    by (simp add: handleCall_def routes_hasOwnProperty_def hasOwnProperty_def obj_get_def)
next
  case (Inr m)
  with assms show ?thesis
    by (simp add: handleCall_def routes_hasOwnProperty_def hasOwnProperty_def obj_get_def)
qed

lemmas msg_defs =
  ws_onmessage_def dispatch_def handleCall_def handleError_def handleResult_def
  routes_hasOwnProperty_def prop_read_def Object_prototype_apply_def object_prototype_keys_def
  data_has_def data_get_def hasOwnProperty_def truthy_def exception_message_def error_frame_def
  run_jobs_def reply_def

lemma array_index_hasOwnProperty: "array_index ''hasOwnProperty'' = None"
  by (simp add: array_index_def digit_val_def)

lemma apply_table_ping: "apply_table ping_route v = Inr v"
  by (simp add: ping_route_def)





text \<open>
  What \<^verbatim>\<open>handleError\<close> does in the two cases it was written for. A decoded frame
  has an id that converts to the property key \<open>k\<close>, no method, and an error
  member that is \<^verbatim>\<open>null\<close>. When the store has a Deferred under \<open>k\<close> that is
  pending, \<^verbatim>\<open>ws.onmessage\<close> returns with that Deferred rejected (with the frame's
  error, \<^verbatim>\<open>null\<close>) and the key deleted from the store. When the store has
  nothing under \<open>k\<close>, \<^verbatim>\<open>ws.onmessage\<close> returns and the whole state is what it
  was: nothing is sent, nothing is settled.
\<close>

lemma handleError_pending_or_absent:
  assumes "data_has d ''id'' = Inr True" and "data_has d ''method'' = Inr False"
    and "data_has d ''error'' = Inr True" and "data_get d ''error'' = JNull"
    and "to_key (data_get d ''id'') = Inr k"
  shows "(obj_get (store s) k = Some a \<and> isPending (heap s a) \<longrightarrow>
            (\<exists>s'. ws_onmessage \<lparr>type' = ''message'', data = Inr d\<rparr> s = (Inr (), s') \<and>
                  promise (heap s' a) = Some (Rejected JNull) \<and> \<not> isPending (heap s' a) \<and>
                  store s' = obj_delete k (store s))) \<and>
         (obj_get (store s) k = None \<and> jobs s = [] \<longrightarrow>
            ws_onmessage \<lparr>type' = ''message'', data = Inr d\<rparr> s = (Inr (), s))"
proof -
  have disp: "dispatch d s = handleError d s"
    using assms(1-4) by (simp add: dispatch_def)
  have found: "\<exists>s'. ws_onmessage \<lparr>type' = ''message'', data = Inr d\<rparr> s = (Inr (), s') \<and>
                  promise (heap s' a) = Some (Rejected JNull) \<and> \<not> isPending (heap s' a) \<and>
                  store s' = obj_delete k (store s)"
    if h: "obj_get (store s) k = Some a" "isPending (heap s a)"
  proof -
    let ?s1 = "s\<lparr>store := obj_delete k (store s)\<rparr>"
    let ?d = "(heap s a)\<lparr>done' := True, promise := Some (Rejected JNull)\<rparr>"
    let ?s2 = "?s1\<lparr>heap := (heap ?s1)(a := ?d),
                   jobs := jobs ?s1 @ (case then_send ?d of
                                         None \<Rightarrow> []
                                       | Some (cn, i) \<Rightarrow> [(cn, i, Rejected JNull)])\<rparr>"
    have "settle (Rejected JNull) a ?s1 = (Inr (), ?s2)"
      using h(2) by (simp add: settle_def wrapper_def isPending_def)
    then have he: "handleError d s = (Inr (), ?s2)"
      using h(1) assms(4,5) by (simp add: handleError_def)
    have "ws_onmessage \<lparr>type' = ''message'', data = Inr d\<rparr> s = (Inr (), run_jobs ?s2)"
      by (simp add: ws_onmessage_def disp he)
    moreover have "promise (heap (run_jobs ?s2) a) = Some (Rejected JNull)"
      "\<not> isPending (heap (run_jobs ?s2) a)" "store (run_jobs ?s2) = obj_delete k (store s)"
      by (simp_all add: isPending_def)
    ultimately show ?thesis by blast
  qed
  have absent: "ws_onmessage \<lparr>type' = ''message'', data = Inr d\<rparr> s = (Inr (), s)"
    if h: "obj_get (store s) k = None" "jobs s = []"
  proof -
    have "handleError d s = (Inr (), s)"
      using h(1) assms(5) by (simp add: handleError_def)
    then show ?thesis
      using run_jobs_empty [OF h(2)] by (simp add: ws_onmessage_def disp)
  qed
  from found absent show ?thesis by blast
qed


text \<open>
  Claim C6, on a reply that comes late. A client connects, the socket opens and
  two calls are sent, with the ids 3 and 5. The socket closes: \<^verbatim>\<open>ws.onclose\<close>
  rejects both Deferreds and, like \<^verbatim>\<open>rejectQueue\<close>, leaves them in the store.
  The reconnect timer constructs a new socket, which opens, and the peer's frame
  with the id 5 and a \<^verbatim>\<open>null\<close> error arrives. No call is pending for that id, but
  \<^verbatim>\<open>handleError\<close> finds the settled Deferred in the store and calls \<^verbatim>\<open>reject\<close>
  on it; the Deferred throws "Promise already done", and the \<^verbatim>\<open>catch\<close> block of
  \<^verbatim>\<open>ws.onmessage\<close> sends an error frame back to the peer.
\<close>

theorem late_null_error_is_answered:
  "store (run [Connect None, Opens 0 JNull, Call (JStr ''a'') JNull False,
               Call (JStr ''b'') JNull False, Closes 0 JNull, Timeout None, Opens 1 JNull]
            WSRPC) = [(''3'', 0), (''5'', 1)] \<and>
   promise (heap (run [Connect None, Opens 0 JNull, Call (JStr ''a'') JNull False,
                       Call (JStr ''b'') JNull False, Closes 0 JNull, Timeout None,
                       Opens 1 JNull] WSRPC) 1) =
     Some (Rejected (JStr ''Connection closed'')) \<and>
   \<not> isPending (heap (run [Connect None, Opens 0 JNull, Call (JStr ''a'') JNull False,
                           Call (JStr ''b'') JNull False, Closes 0 JNull, Timeout None,
                           Opens 1 JNull] WSRPC) 1) \<and>
   sent (sockets (run [Connect None, Opens 0 JNull, Call (JStr ''a'') JNull False,
                       Call (JStr ''b'') JNull False, Closes 0 JNull, Timeout None,
                       Opens 1 JNull] WSRPC) 1) = [] \<and>
   fst (ws_onmessage
          \<lparr>type' = ''message'', data = Inr (JObj [(''id'', JNum 5), (''error'', JNull)])\<rparr>
          (run [Connect None, Opens 0 JNull, Call (JStr ''a'') JNull False,
                Call (JStr ''b'') JNull False, Closes 0 JNull, Timeout None, Opens 1 JNull]
             WSRPC)) = Inr () \<and>
   sent (sockets (snd (ws_onmessage
          \<lparr>type' = ''message'', data = Inr (JObj [(''id'', JNum 5), (''error'', JNull)])\<rparr>
          (run [Connect None, Opens 0 JNull, Call (JStr ''a'') JNull False,
                Call (JStr ''b'') JNull False, Closes 0 JNull, Timeout None, Opens 1 JNull]
             WSRPC))) 1) =
     [JObj [(''error'', JStr ''Promise already done''), (''result'', JNull), (''id'', JNum 5)]]"
  by (simp add: run_defs msg_defs num_key_5 array_index_5)

end
